theory Spec2Isabelle
  imports Complex_Main
begin

section \<open>Values: floats, devices, errors\<close>

text \<open>
  A Python float or the element of a float tensor: a finite value, the two infinities or
  not-a-number. Arithmetic on finite values is exact (rounding and the overflow of a finite
  product to infinity are not modelled); the special values follow IEEE 754.
\<close>

datatype flt = Fin real | PInf | NInf | NaN

fun fadd :: "flt \<Rightarrow> flt \<Rightarrow> flt" where
  "fadd NaN y = NaN"
| "fadd x NaN = NaN"
| "fadd (Fin a) (Fin b) = Fin (a + b)"
| "fadd PInf NInf = NaN"
| "fadd NInf PInf = NaN"
| "fadd PInf y = PInf"
| "fadd NInf y = NInf"
| "fadd (Fin a) y = y"

fun signed_inf :: "bool \<Rightarrow> real \<Rightarrow> flt" where
  "signed_inf pos b =
     (if b = 0 then NaN else if (0 < b) = pos then PInf else NInf)"

fun fmul :: "flt \<Rightarrow> flt \<Rightarrow> flt" where
  "fmul NaN y = NaN"
| "fmul x NaN = NaN"
| "fmul (Fin a) (Fin b) = Fin (a * b)"
| "fmul PInf (Fin b) = signed_inf True b"
| "fmul NInf (Fin b) = signed_inf False b"
| "fmul (Fin a) PInf = signed_inf True a"
| "fmul (Fin a) NInf = signed_inf False a"
| "fmul PInf PInf = PInf"
| "fmul NInf NInf = PInf"
| "fmul PInf NInf = NInf"
| "fmul NInf PInf = NInf"

text \<open>\<^verbatim>\<open>x > y\<close> and \<^verbatim>\<open>x < y\<close> on floats; every comparison with NaN is false.\<close>

fun fless :: "flt \<Rightarrow> flt \<Rightarrow> bool" where
  "fless NaN y = False"
| "fless x NaN = False"
| "fless (Fin a) (Fin b) = (a < b)"
| "fless x NInf = False"
| "fless PInf y = False"
| "fless NInf y = True"
| "fless (Fin a) PInf = True"

text \<open>\<^verbatim>\<open>torch.isinf(t).any() or torch.isnan(t).any()\<close> on the elements of a tensor.\<close>

fun non_finite :: "flt \<Rightarrow> bool" where
  "non_finite (Fin a) = False"
| "non_finite x = True"

definition any_non_finite :: "flt list \<Rightarrow> bool" where
  "any_non_finite xs = list_ex non_finite xs"

text \<open>Truthiness of a number: \<^verbatim>\<open>not x\<close> holds exactly for zero (NaN is truthy).\<close>

definition truthy :: "flt \<Rightarrow> bool" where
  "truthy x = (x \<noteq> Fin 0)"

text \<open>The value of an int32 tensor element after an addition: two's complement wrap-around.\<close>

definition wrap32 :: "int \<Rightarrow> int" where
  "wrap32 x = (x + 2147483648) mod 4294967296 - 2147483648"

datatype device = CPU | CUDA nat | XLA nat | OtherDevice

datatype dtype = Float16 | BFloat16 | Float32 | Float64

datatype error =
    AssertionError string
  | RuntimeError string
  | ValueError string
  | AttributeError string
  | KeyError string
  | TypeError string
  | Unmodelled string

section \<open>The tensor store\<close>

text \<open>
  One-element tensors are objects with identity: the scale buffer, the growth-tracker
  buffer and the found-overflow flags are referred to by address, so that an in-place
  operation is seen through every reference and a copy is a different object. Float and
  int32 tensors live in separate address spaces; \<open>fnext\<close> and \<open>inext\<close> are the next free
  addresses (nothing is ever freed).
\<close>

record store =
  floats :: "nat \<Rightarrow> device \<times> flt"
  fnext :: nat
  ints :: "nat \<Rightarrow> device \<times> int"
  inext :: nat

definition empty_store :: store where
  "empty_store = \<lparr>floats = (\<lambda>_. (CPU, Fin 0)), fnext = 0, ints = (\<lambda>_. (CPU, 0)), inext = 0\<rparr>"

definition new_float :: "device \<Rightarrow> flt \<Rightarrow> store \<Rightarrow> nat \<times> store" where
  "new_float dev v h =
     (fnext h, h\<lparr>floats := (floats h)(fnext h := (dev, v)), fnext := Suc (fnext h)\<rparr>)"

definition new_int :: "device \<Rightarrow> int \<Rightarrow> store \<Rightarrow> nat \<times> store" where
  "new_int dev v h =
     (inext h, h\<lparr>ints := (ints h)(inext h := (dev, v)), inext := Suc (inext h)\<rparr>)"

definition device_of :: "store \<Rightarrow> nat \<Rightarrow> device" where
  "device_of h a = fst (floats h a)"

text \<open>\<^verbatim>\<open>t.item()\<close> of a one-element float tensor.\<close>

definition item :: "store \<Rightarrow> nat \<Rightarrow> flt" where
  "item h a = snd (floats h a)"

text \<open>\<^verbatim>\<open>t.fill_(v)\<close>, \<^verbatim>\<open>t.copy_(u)\<close>, \<^verbatim>\<open>t *= v\<close>, \<^verbatim>\<open>t += u\<close>: the object stays, its value changes.\<close>

definition fill_float :: "nat \<Rightarrow> flt \<Rightarrow> store \<Rightarrow> store" where
  "fill_float a v h = h\<lparr>floats := (floats h)(a := (device_of h a, v))\<rparr>"

definition fill_int :: "nat \<Rightarrow> int \<Rightarrow> store \<Rightarrow> store" where
  "fill_int a v h = h\<lparr>ints := (ints h)(a := (fst (ints h a), v))\<rparr>"

definition imul :: "nat \<Rightarrow> flt \<Rightarrow> store \<Rightarrow> store" where
  "imul a v h = fill_float a (fmul (item h a) v) h"

definition iadd :: "nat \<Rightarrow> nat \<Rightarrow> store \<Rightarrow> store" where
  "iadd a b h = fill_float a (fadd (item h a) (item h b)) h"

text \<open>
  \<^verbatim>\<open>t.to(device=dev, non_blocking=True)\<close>: the tensor itself when it is already on that
  device, a new copy there otherwise.
\<close>

definition to_device :: "device \<Rightarrow> nat \<Rightarrow> store \<Rightarrow> nat \<times> store" where
  "to_device dev a h = (if device_of h a = dev then (a, h) else new_float dev (item h a) h)"

section \<open>The scaler object\<close>

datatype OptState = READY | UNSCALED | STEPPED

text \<open>
  What is stored under \<^verbatim>\<open>"stage"\<close>. The source file defines its own enumeration
  \<^verbatim>\<open>OptState\<close>, and the base class \<^verbatim>\<open>torch.cuda.amp.GradScaler\<close> uses the enumeration of the
  same name of its own module. Members are compared with \<^verbatim>\<open>is\<close>, and a member of one
  enumeration is never a member of the other: \<open>Own\<close> marks the members this file stores
  and tests, \<open>Base\<close> those the inherited \<^verbatim>\<open>unscale_\<close> stores and tests.
\<close>

datatype stage_value = Own OptState | Base OptState

record opt_state =
  stage :: stage_value
  found_inf_per_device :: "(device \<times> nat) list"

definition refresh_per_optimizer_state :: opt_state where
  "refresh_per_optimizer_state = \<lparr>stage = Own READY, found_inf_per_device = []\<rparr>"

text \<open>
  \<^verbatim>\<open>self._growth_tracker\<close> holds an int32 tensor after lazy initialisation; the CPU update
  path rebinds the attribute to a new tensor or to the plain Python int \<^verbatim>\<open>0\<close>.
\<close>

datatype tracker = TrackerTensor nat | TrackerInt int

text \<open>
  The attributes of a \<^verbatim>\<open>ShardedGradScaler\<close>. A dictionary keeps its insertion order, so
  \<^verbatim>\<open>_per_optimizer_states\<close> and \<^verbatim>\<open>found_inf_per_device\<close> are association lists. The
  process group is only handed on to the collective and is not a field here. A disabled
  instance sets only \<^verbatim>\<open>_enabled\<close>; its other fields are never read by the disabled
  branches.
\<close>

record scaler =
  s_enabled :: bool
  s_init_scale :: flt
  s_scale :: "nat option"
  s_growth_factor :: flt
  s_backoff_factor :: flt
  s_growth_interval :: int
  s_init_growth_tracker :: int
  s_growth_tracker :: "tracker option"
  s_per_optimizer_states :: "(nat \<times> opt_state) list"
  s_display_warning :: bool

text \<open>\<^verbatim>\<open>d[k]\<close> on the defaultdict: a missing key is inserted with the default first.\<close>

definition dict_get :: "nat \<Rightarrow> (nat \<times> opt_state) list \<Rightarrow> opt_state \<times> (nat \<times> opt_state) list" where
  "dict_get k d =
     (case map_of d k of
        Some v \<Rightarrow> (v, d)
      | None \<Rightarrow> (refresh_per_optimizer_state, d @ [(k, refresh_per_optimizer_state)]))"

fun dict_set :: "'k \<Rightarrow> 'v \<Rightarrow> ('k \<times> 'v) list \<Rightarrow> ('k \<times> 'v) list" where
  "dict_set k v [] = [(k, v)]"
| "dict_set k v (p # ps) = (if fst p = k then (k, v) # ps else p # dict_set k v ps)"

definition init :: "flt \<Rightarrow> flt \<Rightarrow> flt \<Rightarrow> int \<Rightarrow> bool \<Rightarrow> bool \<Rightarrow> error + scaler" where
  "init init_scale growth_factor backoff_factor growth_interval enabled amp_not_available =
     (let en = (if enabled \<and> amp_not_available then False else enabled) in
      if en then
        if \<not> fless (Fin 1) growth_factor
          then Inl (AssertionError ''The growth factor must be > 1.0.'')
        else if \<not> fless backoff_factor (Fin 1)
          then Inl (AssertionError ''The backoff factor must be < 1.0.'')
        else Inr \<lparr>s_enabled = True, s_init_scale = init_scale, s_scale = None,
                  s_growth_factor = growth_factor, s_backoff_factor = backoff_factor,
                  s_growth_interval = growth_interval, s_init_growth_tracker = 0,
                  s_growth_tracker = None, s_per_optimizer_states = [],
                  s_display_warning = True\<rparr>
      else Inr \<lparr>s_enabled = False, s_init_scale = init_scale, s_scale = None,
                s_growth_factor = growth_factor, s_backoff_factor = backoff_factor,
                s_growth_interval = growth_interval, s_init_growth_tracker = 0,
                s_growth_tracker = None, s_per_optimizer_states = [],
                s_display_warning = True\<rparr>)"

definition fix_msg :: string where
  "fix_msg = ''This may indicate your script did not use scaler.scale(loss or outputs) earlier in the iteration.''"

definition check_scale_growth_tracker :: "string \<Rightarrow> scaler \<Rightarrow> error + (nat \<times> tracker)" where
  "check_scale_growth_tracker funcname self =
     (case s_scale self of
        None \<Rightarrow> Inl (AssertionError (''Attempted '' @ funcname @ '' but _scale is None.  '' @ fix_msg))
      | Some sc \<Rightarrow>
          (case s_growth_tracker self of
             None \<Rightarrow> Inl (AssertionError
                        (''Attempted '' @ funcname @ '' but _growth_tracker is None.  '' @ fix_msg))
           | Some tr \<Rightarrow> Inr (sc, tr)))"

definition lazy_init_scale_growth_tracker :: "device \<Rightarrow> scaler \<Rightarrow> store \<Rightarrow> error + (scaler \<times> store)" where
  "lazy_init_scale_growth_tracker dev self h =
     (if s_growth_tracker self \<noteq> None
        then Inl (AssertionError ''_growth_tracker initialized before _scale'')
      else
        let (sc, h1) = new_float dev (s_init_scale self) h;
            (tr, h2) = new_int dev (s_init_growth_tracker self) h1
        in Inr (self\<lparr>s_scale := Some sc, s_growth_tracker := Some (TrackerTensor tr)\<rparr>, h2))"

section \<open>Scaling\<close>

text \<open>
  The argument of \<^verbatim>\<open>scale\<close>: a tensor (its device and elements), a list or a tuple of such
  values, or a value that is neither a tensor nor iterable. Other iterables, which the
  source maps lazily, are not part of the model.
\<close>

datatype outputs =
    Tensor device "flt list"
  | PyList "outputs list"
  | PyTuple "outputs list"
  | NotIterable

definition device_ok :: "device \<Rightarrow> bool" where
  "device_ok d = (case d of CPU \<Rightarrow> True | CUDA _ \<Rightarrow> True | XLA _ \<Rightarrow> True | OtherDevice \<Rightarrow> False)"

text \<open>
  \<^verbatim>\<open>apply_scale\<close>: the stash holds the replicator of the scale once the first tensor has been
  met; every tensor is multiplied by a copy of that master on its own device.
\<close>

fun apply_scale :: "outputs \<Rightarrow> nat option \<times> scaler \<times> store \<Rightarrow>
      error + (outputs \<times> nat option \<times> scaler \<times> store)"
  and apply_scale_all :: "outputs list \<Rightarrow> nat option \<times> scaler \<times> store \<Rightarrow>
      error + (outputs list \<times> nat option \<times> scaler \<times> store)" where
  "apply_scale (Tensor dev xs) (stash, self, h) =
     (if \<not> device_ok dev then Inl (AssertionError '''')
      else
        (case stash of
           Some m \<Rightarrow> Inr (Tensor dev (map (\<lambda>x. fmul x (item h m)) xs), stash, self, h)
         | None \<Rightarrow>
            (case (case s_scale self of
                     None \<Rightarrow> lazy_init_scale_growth_tracker dev self h
                   | Some _ \<Rightarrow> Inr (self, h)) of
               Inl e \<Rightarrow> Inl e
             | Inr (self1, h1) \<Rightarrow>
                 (case s_scale self1 of
                    None \<Rightarrow> Inl (AssertionError '''')
                  | Some m \<Rightarrow>
                      Inr (Tensor dev (map (\<lambda>x. fmul x (item h1 m)) xs), Some m, self1, h1)))))"
| "apply_scale (PyList vs) st =
     (case apply_scale_all vs st of
        Inl e \<Rightarrow> Inl e
      | Inr (rs, st1) \<Rightarrow> Inr (PyList rs, st1))"
| "apply_scale (PyTuple vs) st =
     (case apply_scale_all vs st of
        Inl e \<Rightarrow> Inl e
      | Inr (rs, st1) \<Rightarrow> Inr (PyTuple rs, st1))"
| "apply_scale NotIterable st =
     Inl (ValueError ''outputs must be a Tensor or an iterable of Tensors'')"
| "apply_scale_all [] st = Inr ([], st)"
| "apply_scale_all (v # vs) st =
     (case apply_scale v st of
        Inl e \<Rightarrow> Inl e
      | Inr (r, st1) \<Rightarrow>
          (case apply_scale_all vs st1 of
             Inl e \<Rightarrow> Inl e
           | Inr (rs, st2) \<Rightarrow> Inr (r # rs, st2)))"

definition scale :: "outputs \<Rightarrow> scaler \<Rightarrow> store \<Rightarrow> error + (outputs \<times> scaler \<times> store)" where
  "scale outs self h =
     (if \<not> s_enabled self then Inr (outs, self, h)
      else
        (case outs of
           Tensor dev xs \<Rightarrow>
             (if \<not> device_ok dev then Inl (AssertionError '''')
              else
                (case (case s_scale self of
                         None \<Rightarrow> lazy_init_scale_growth_tracker dev self h
                       | Some _ \<Rightarrow> Inr (self, h)) of
                   Inl e \<Rightarrow> Inl e
                 | Inr (self1, h1) \<Rightarrow>
                     (case s_scale self1 of
                        None \<Rightarrow> Inl (AssertionError '''')
                      | Some sc \<Rightarrow>
                          Inr (Tensor dev (map (\<lambda>x. fmul x (item h1 sc)) xs), self1, h1))))
         | _ \<Rightarrow>
             (case apply_scale outs (None, self, h) of
                Inl e \<Rightarrow> Inl e
              | Inr (r, _, self1, h1) \<Rightarrow> Inr (r, self1, h1))))"

section \<open>Scale update\<close>

text \<open>
  The \<^verbatim>\<open>new_scale\<close> argument of \<^verbatim>\<open>update\<close>: a Python float, a tensor (whether it is a
  \<^verbatim>\<open>torch.cuda.FloatTensor\<close>, its elements, its \<^verbatim>\<open>requires_grad\<close>), or any other object.
\<close>

datatype new_scale_arg =
    NewScaleFloat flt
  | NewScaleTensor bool "flt list" bool
  | NewScaleOther

definition new_scale_reason :: string where
  "new_scale_reason = ''new_scale should be a float or a 1-element torch.cuda.FloatTensor with requires_grad=False.''"

text \<open>
  \<^verbatim>\<open>_amp_update_scale_cpu_\<close>. The argument is the combined flag tensor; comparing it with
  an infinity gives a one-element boolean tensor, whose truth value is that of the
  comparison. \<^verbatim>\<open>self._scale *= f\<close> works in place on the scale buffer, while the growth
  tracker attribute is rebound: to the int \<^verbatim>\<open>0\<close>, or to \<^verbatim>\<open>self._growth_tracker + 1\<close>, which is
  a new int32 tensor when the tracker is a tensor and an int when it is an int.
\<close>

definition amp_update_scale_cpu :: "nat \<Rightarrow> scaler \<Rightarrow> store \<Rightarrow> error + (scaler \<times> store)" where
  "amp_update_scale_cpu found_inf self h =
     (case s_scale self of
        None \<Rightarrow> Inl (TypeError ''unsupported operand type(s)'')
      | Some sc \<Rightarrow>
          if item h found_inf = PInf \<or> item h found_inf = NInf then
            Inr (self\<lparr>s_growth_tracker := Some (TrackerInt 0)\<rparr>,
                 imul sc (s_backoff_factor self) h)
          else
            (case s_growth_tracker self of
               None \<Rightarrow> Inl (TypeError ''unsupported operand type(s)'')
             | Some (TrackerInt n) \<Rightarrow>
                 if n + 1 = s_growth_interval self then
                   Inr (self\<lparr>s_growth_tracker := Some (TrackerInt 0)\<rparr>,
                        imul sc (s_growth_factor self) h)
                 else Inr (self\<lparr>s_growth_tracker := Some (TrackerInt (n + 1))\<rparr>, h)
             | Some (TrackerTensor t) \<Rightarrow>
                 let (successful, h1) = new_int (fst (ints h t)) (wrap32 (snd (ints h t) + 1)) h in
                 if snd (ints h1 successful) = s_growth_interval self then
                   Inr (self\<lparr>s_growth_tracker := Some (TrackerInt 0)\<rparr>,
                        imul sc (s_growth_factor self) h1)
                 else Inr (self\<lparr>s_growth_tracker := Some (TrackerTensor successful)\<rparr>, h1)))"

text \<open>
  Modelled from the spec: \<^verbatim>\<open>torch._amp_update_scale_\<close>, the library kernel the source calls
  when the scale buffer is not on the CPU; it is not part of the source file. Section 4.5:
  if the combined flag is non-zero, multiply the scale by the backoff factor and reset the
  growth tracker to 0; else increment the growth tracker, and if it has just reached the
  growth interval, multiply the scale by the growth factor and reset the tracker to 0,
  otherwise leave the scale unchanged. The kernel writes into the two buffers it is given.
\<close>

definition torch_amp_update_scale ::
  "nat \<Rightarrow> tracker option \<Rightarrow> nat \<Rightarrow> flt \<Rightarrow> flt \<Rightarrow> int \<Rightarrow> store \<Rightarrow> error + store" where
  "torch_amp_update_scale sc tr found_inf growth_factor backoff_factor growth_interval h =
     (case tr of
        Some (TrackerTensor t) \<Rightarrow>
          if truthy (item h found_inf) then
            Inr (fill_int t 0 (imul sc backoff_factor h))
          else
            let successful = wrap32 (snd (ints h t) + 1) in
            if successful = growth_interval then
              Inr (fill_int t 0 (imul sc growth_factor h))
            else Inr (fill_int t successful h)
      | _ \<Rightarrow> Inl (TypeError ''_amp_update_scale_(): argument growth_tracker must be Tensor''))"

text \<open>
  The list comprehension of \<^verbatim>\<open>update\<close>: every flag of every tracked optimizer, in
  dictionary order, brought to the device of the scale.
\<close>

definition recorded_flags :: "scaler \<Rightarrow> nat list" where
  "recorded_flags self =
     concat (map (\<lambda>(k, st). map snd (found_inf_per_device st)) (s_per_optimizer_states self))"

fun gather_found_infs :: "device \<Rightarrow> nat list \<Rightarrow> store \<Rightarrow> nat list \<times> store" where
  "gather_found_infs dev [] h = ([], h)"
| "gather_found_infs dev (a # as) h =
     (let (b, h1) = to_device dev a h;
          (bs, h2) = gather_found_infs dev as h1
      in (b # bs, h2))"

text \<open>\<^verbatim>\<open>found_inf_combined += found_infs[i]\<close> for \<open>i\<close> from 1 on.\<close>

fun accumulate :: "nat \<Rightarrow> nat list \<Rightarrow> store \<Rightarrow> store" where
  "accumulate c [] h = h"
| "accumulate c (b # bs) h = accumulate c bs (iadd c b h)"

definition update :: "new_scale_arg option \<Rightarrow> scaler \<Rightarrow> store \<Rightarrow> error + (scaler \<times> store)" where
  "update new_scale self h =
     (if \<not> s_enabled self then Inr (self, h)
      else
        (case check_scale_growth_tracker ''update'' self of
           Inl e \<Rightarrow> Inl e
         | Inr (sc, tr) \<Rightarrow>
            (case (case new_scale of
                     Some (NewScaleFloat x) \<Rightarrow> Inr (self, fill_float sc x h)
                   | Some (NewScaleTensor is_cuda_float elems requires_grad) \<Rightarrow>
                       if \<not> is_cuda_float then Inl (AssertionError new_scale_reason)
                       else if length elems \<noteq> 1 then Inl (AssertionError new_scale_reason)
                       else if requires_grad then Inl (AssertionError new_scale_reason)
                       else Inr (self, fill_float sc (hd elems) h)
                   | Some NewScaleOther \<Rightarrow> Inl (AssertionError new_scale_reason)
                   | None \<Rightarrow>
                       (case gather_found_infs (device_of h sc) (recorded_flags self) h of
                          ([], h1) \<Rightarrow>
                            Inl (AssertionError ''No inf checks were recorded prior to update.'')
                        | (c # bs, h1) \<Rightarrow>
                            let h2 = accumulate c bs h1 in
                            if device_of h sc = CPU then amp_update_scale_cpu c self h2
                            else
                              (case torch_amp_update_scale sc (s_growth_tracker self) c
                                      (s_growth_factor self) (s_backoff_factor self)
                                      (s_growth_interval self) h2 of
                                 Inl e \<Rightarrow> Inl e
                               | Inr h3 \<Rightarrow> Inr (self, h3)))) of
               Inl e \<Rightarrow> Inl e
             | Inr (self1, h1) \<Rightarrow> Inr (self1\<lparr>s_per_optimizer_states := []\<rparr>, h1))))"

section \<open>Accessors and persistence\<close>

definition get_scale :: "scaler \<Rightarrow> store \<Rightarrow> flt" where
  "get_scale self h =
     (if s_enabled self then
        (case s_scale self of None \<Rightarrow> s_init_scale self | Some sc \<Rightarrow> item h sc)
      else Fin 1)"

definition get_growth_factor :: "scaler \<Rightarrow> flt" where
  "get_growth_factor self = s_growth_factor self"

definition set_growth_factor :: "flt \<Rightarrow> scaler \<Rightarrow> scaler" where
  "set_growth_factor new_factor self = self\<lparr>s_growth_factor := new_factor\<rparr>"

definition get_backoff_factor :: "scaler \<Rightarrow> flt" where
  "get_backoff_factor self = s_backoff_factor self"

definition set_backoff_factor :: "flt \<Rightarrow> scaler \<Rightarrow> scaler" where
  "set_backoff_factor new_factor self = self\<lparr>s_backoff_factor := new_factor\<rparr>"

definition get_growth_interval :: "scaler \<Rightarrow> int" where
  "get_growth_interval self = s_growth_interval self"

definition set_growth_interval :: "int \<Rightarrow> scaler \<Rightarrow> scaler" where
  "set_growth_interval new_interval self = self\<lparr>s_growth_interval := new_interval\<rparr>"

text \<open>
  \<^verbatim>\<open>_get_growth_tracker\<close> calls \<^verbatim>\<open>.item()\<close> on the attribute, which only a tensor has.
\<close>

definition get_growth_tracker :: "scaler \<Rightarrow> store \<Rightarrow> error + int" where
  "get_growth_tracker self h =
     (if s_enabled self then
        (case s_growth_tracker self of
           None \<Rightarrow> Inr (s_init_growth_tracker self)
         | Some (TrackerTensor t) \<Rightarrow> Inr (snd (ints h t))
         | Some (TrackerInt n) \<Rightarrow> Inl (AttributeError ''int object has no attribute item''))
      else Inr 0)"

definition is_enabled :: "scaler \<Rightarrow> bool" where
  "is_enabled self = s_enabled self"

text \<open>The entries of a state blob are Python floats and ints.\<close>

datatype pyval = PyFloat flt | PyInt int

definition state_dict :: "scaler \<Rightarrow> store \<Rightarrow> error + (string \<times> pyval) list" where
  "state_dict self h =
     (if s_enabled self then
        (case get_growth_tracker self h of
           Inl e \<Rightarrow> Inl e
         | Inr tr \<Rightarrow>
             Inr [(''scale'', PyFloat (get_scale self h)),
                  (''growth_factor'', PyFloat (s_growth_factor self)),
                  (''backoff_factor'', PyFloat (s_backoff_factor self)),
                  (''growth_interval'', PyInt (s_growth_interval self)),
                  (''_growth_tracker'', PyInt tr)])
      else Inr [])"

text \<open>
  Reading an entry of the blob into an attribute. A number stored where a float is used
  behaves as that float; a float stored where the source expects an int is outside this
  typed model.
\<close>

definition float_entry :: "(string \<times> pyval) list \<Rightarrow> string \<Rightarrow> error + flt" where
  "float_entry d k =
     (case map_of d k of
        None \<Rightarrow> Inl (KeyError k)
      | Some (PyFloat x) \<Rightarrow> Inr x
      | Some (PyInt n) \<Rightarrow> Inr (Fin (of_int n)))"

definition int_entry :: "(string \<times> pyval) list \<Rightarrow> string \<Rightarrow> error + int" where
  "int_entry d k =
     (case map_of d k of
        None \<Rightarrow> Inl (KeyError k)
      | Some (PyInt n) \<Rightarrow> Inr n
      | Some (PyFloat x) \<Rightarrow> Inl (Unmodelled ''float where an int is expected''))"

definition load_state_dict :: "(string \<times> pyval) list \<Rightarrow> scaler \<Rightarrow> store \<Rightarrow> error + (scaler \<times> store)" where
  "load_state_dict d self h =
     (if \<not> s_enabled self then Inr (self, h)
      else if length d = 0 then
        Inl (RuntimeError ''The source state dict is empty, possibly because it was saved from a disabled instance of GradScaler.'')
      else
        (case float_entry d ''scale'' of Inl e \<Rightarrow> Inl e | Inr sc \<Rightarrow>
         let self1 = self\<lparr>s_init_scale := sc\<rparr>;
             h1 = (case s_scale self1 of None \<Rightarrow> h | Some a \<Rightarrow> fill_float a sc h) in
         (case float_entry d ''growth_factor'' of Inl e \<Rightarrow> Inl e | Inr gf \<Rightarrow>
         (case float_entry d ''backoff_factor'' of Inl e \<Rightarrow> Inl e | Inr bf \<Rightarrow>
         (case int_entry d ''growth_interval'' of Inl e \<Rightarrow> Inl e | Inr gi \<Rightarrow>
         (case int_entry d ''_growth_tracker'' of Inl e \<Rightarrow> Inl e | Inr tr \<Rightarrow>
         let self2 = self1\<lparr>s_growth_factor := gf, s_backoff_factor := bf,
                           s_growth_interval := gi, s_init_growth_tracker := tr\<rparr> in
         (case s_growth_tracker self2 of
            None \<Rightarrow> Inr (self2, h1)
          | Some (TrackerTensor t) \<Rightarrow> Inr (self2, fill_int t tr h1)
          | Some (TrackerInt n) \<Rightarrow>
              Inl (AttributeError ''int object has no attribute fill_''))))))))"

text \<open>
  \<^verbatim>\<open>__getstate__\<close>: the copy of the attribute dictionary that is pickled; it refers to no
  tensor of the store once the two buffers are set to \<^verbatim>\<open>None\<close>.
\<close>

definition getstate :: "scaler \<Rightarrow> store \<Rightarrow> error + scaler" where
  "getstate self h =
     (let state = self in
      if s_enabled self then
        if length (s_per_optimizer_states self) \<noteq> 0 then
          Inl (AssertionError ''A GradScaler instance may only be pickled at the beginning of an iteration, or at the end after scaler.update().'')
        else
          (case get_growth_tracker self h of
             Inl e \<Rightarrow> Inl e
           | Inr tr \<Rightarrow>
               Inr (state\<lparr>s_init_scale := get_scale self h, s_init_growth_tracker := tr,
                          s_scale := None, s_growth_tracker := None\<rparr>))
      else Inr state)"

definition setstate :: "scaler \<Rightarrow> scaler \<Rightarrow> scaler" where
  "setstate state self = state"

section \<open>Optimizers and gradients\<close>

text \<open>
  The data of a gradient tensor: a 0-dimensional tensor, or a tensor of at least one
  dimension, given by its slices along the first dimension (what iterating over the tensor
  yields), each slice by its elements.
\<close>

datatype tensor_data = ZeroDim flt | Rows "flt list list"

text \<open>
  A gradient: \<open>g_indices\<close> is \<open>None\<close> for a dense gradient; for a sparse one it lists the
  index of each row of \<^verbatim>\<open>_values()\<close>, and \<open>g_data\<close> is that values tensor.
\<close>

record grad =
  g_device :: device
  g_dtype :: dtype
  g_indices :: "nat list option"
  g_data :: tensor_data

text \<open>\<^verbatim>\<open>coalesce()\<close>: rows with the same index are added up, indices come out sorted.\<close>

fun add_rows :: "flt list \<Rightarrow> flt list \<Rightarrow> flt list" where
  "add_rows (x # xs) (y # ys) = fadd x y # add_rows xs ys"
| "add_rows xs [] = xs"
| "add_rows [] ys = ys"

definition coalesce :: "grad \<Rightarrow> grad" where
  "coalesce g =
     (case (g_indices g, g_data g) of
        (Some idx, Rows rs) \<Rightarrow>
          (let keys = sort (remdups idx);
               row_of = (\<lambda>k. foldl add_rows [] (map snd (filter (\<lambda>p. fst p = k) (zip idx rs))))
           in g\<lparr>g_indices := Some keys, g_data := Rows (map row_of keys)\<rparr>)
      | _ \<Rightarrow> g)"

text \<open>
  A call of \<^verbatim>\<open>optimizer.step\<close>: its positional arguments (opaque), whether a \<^verbatim>\<open>closure\<close>
  keyword is among the keyword arguments, and whether the scaler was passed as
  \<^verbatim>\<open>grad_scaler\<close>.
\<close>

record call =
  c_args :: "nat list"
  c_closure :: bool
  c_grad_scaler :: bool

datatype retval = PyNone | Returned nat

text \<open>
  The wrapped optimizer, an external collaborator: its identity \<^verbatim>\<open>id(optimizer)\<close>, whether
  it is an \<^verbatim>\<open>OSS\<close>, whether it has a true \<^verbatim>\<open>_step_supports_amp_scaling\<close>, the gradients of
  the parameters of its parameter groups (\<open>None\<close> for a parameter without gradient), what
  its \<^verbatim>\<open>step\<close> returns, and the calls of \<^verbatim>\<open>step\<close> it has received.
\<close>

record optimizer =
  o_id :: nat
  o_is_oss :: bool
  o_step_supports_amp_scaling :: bool
  o_param_groups :: "grad option list list"
  o_step_result :: "call \<Rightarrow> retval"
  o_step_calls :: "call list"

definition optimizer_step :: "optimizer \<Rightarrow> call \<Rightarrow> retval \<times> optimizer" where
  "optimizer_step opt c = (o_step_result opt c, opt\<lparr>o_step_calls := o_step_calls opt @ [c]\<rparr>)"

section \<open>Overflow scan and unscale\<close>

text \<open>A parameter is addressed by the index of its group and its index in the group.\<close>

definition all_positions :: "grad option list list \<Rightarrow> (nat \<times> nat) list" where
  "all_positions groups =
     concat (map (\<lambda>i. map (\<lambda>j. (i, j)) [0..<length (groups ! i)]) [0..<length groups])"

definition grad_at :: "grad option list list \<Rightarrow> nat \<times> nat \<Rightarrow> grad option" where
  "grad_at groups p =
     (if fst p < length groups \<and> snd p < length (groups ! fst p)
        then groups ! fst p ! snd p else None)"

definition set_grad :: "nat \<times> nat \<Rightarrow> grad \<Rightarrow> grad option list list \<Rightarrow> grad option list list" where
  "set_grad p g groups = groups[fst p := (groups ! fst p)[snd p := Some g]]"

text \<open>\<^verbatim>\<open>per_device_and_dtype_grads[device][dtype].append(to_unscale)\<close>\<close>

definition append_grad ::
  "device \<Rightarrow> dtype \<Rightarrow> nat \<times> nat \<Rightarrow> (device \<times> (dtype \<times> (nat \<times> nat) list) list) list
     \<Rightarrow> (device \<times> (dtype \<times> (nat \<times> nat) list) list) list" where
  "append_grad dev dt p d =
     (let per_dtype = (case map_of d dev of None \<Rightarrow> [] | Some x \<Rightarrow> x);
          grads = (case map_of per_dtype dt of None \<Rightarrow> [] | Some l \<Rightarrow> l)
      in dict_set dev (dict_set dt (grads @ [p]) per_dtype) d)"

text \<open>The first loop of \<^verbatim>\<open>_unscale_grads_\<close>, over the parameters in order.\<close>

fun split_grads ::
  "bool \<Rightarrow> (nat \<times> nat) list \<Rightarrow> grad option list list
     \<Rightarrow> (device \<times> (dtype \<times> (nat \<times> nat) list) list) list
     \<Rightarrow> error + (grad option list list \<times> (device \<times> (dtype \<times> (nat \<times> nat) list) list) list)" where
  "split_grads allow_fp16 [] groups d = Inr (groups, d)"
| "split_grads allow_fp16 (p # ps) groups d =
     (case grad_at groups p of
        None \<Rightarrow> split_grads allow_fp16 ps groups d
      | Some g \<Rightarrow>
          if \<not> allow_fp16 \<and> g_dtype g = Float16
            then Inl (ValueError ''Attempting to unscale FP16 gradients.'')
          else if g_indices g \<noteq> None \<and> g_dtype g = Float16 then
            split_grads allow_fp16 ps (set_grad p (coalesce g) groups)
              (append_grad (g_device g) (g_dtype g) p d)
          else
            split_grads allow_fp16 ps groups (append_grad (g_device g) (g_dtype g) p d))"

text \<open>
  The loop of \<^verbatim>\<open>_foreach_non_finite_check_and_unscale_cpu_\<close> over the slices of one tensor:
  a slice with a non-finite element ends the loop, any other slice is multiplied by the
  inverse scale. The result says whether a non-finite element was met.
\<close>

fun scan_slices :: "flt \<Rightarrow> flt list list \<Rightarrow> bool \<times> flt list list" where
  "scan_slices inv_scale [] = (False, [])"
| "scan_slices inv_scale (r # rs) =
     (if any_non_finite r then (True, r # rs)
      else let (found, rs') = scan_slices inv_scale rs
           in (found, map (\<lambda>x. fmul x inv_scale) r # rs'))"

text \<open>
  \<^verbatim>\<open>_foreach_non_finite_check_and_unscale_cpu_(grads, found_inf, inv_scale)\<close>. The loop
  \<^verbatim>\<open>for tensor in grads[0]\<close> iterates over the first tensor of the list; a 0-dimensional
  tensor cannot be iterated. \<^verbatim>\<open>found_inf.data = torch.tensor([1.0])\<close> makes the flag object a
  CPU tensor holding 1.
\<close>

definition foreach_non_finite_check_and_unscale_cpu ::
  "(nat \<times> nat) list \<Rightarrow> nat \<Rightarrow> flt \<Rightarrow> grad option list list \<Rightarrow> store
     \<Rightarrow> error + (grad option list list \<times> store)" where
  "foreach_non_finite_check_and_unscale_cpu grads found_inf inv_scale groups h =
     (case grads of
        [] \<Rightarrow> Inr (groups, h)
      | p # _ \<Rightarrow>
          (case grad_at groups p of
             None \<Rightarrow> Inr (groups, h)
           | Some g \<Rightarrow>
               (case g_data g of
                  ZeroDim x \<Rightarrow> Inl (TypeError ''iteration over a 0-d tensor'')
                | Rows rs \<Rightarrow>
                    let (found, rs') = scan_slices inv_scale rs;
                        groups' = set_grad p (g\<lparr>g_data := Rows rs'\<rparr>) groups
                    in Inr (groups',
                            if found then h\<lparr>floats := (floats h)(found_inf := (CPU, Fin 1))\<rparr>
                            else h))))"

text \<open>
  Modelled from the spec: \<^verbatim>\<open>torch._amp_foreach_non_finite_check_and_unscale_\<close>, the
  vectorized library primitive used for the devices other than the CPU; it is not part of
  the source file. Section 4.2: every gradient of the group is multiplied in place by the
  reciprocal of the scale and, in the same pass, the flag is set when any element is
  non-finite.
\<close>

definition unscale_data :: "flt \<Rightarrow> tensor_data \<Rightarrow> tensor_data" where
  "unscale_data inv_scale t =
     (case t of
        ZeroDim x \<Rightarrow> ZeroDim (fmul x inv_scale)
      | Rows rs \<Rightarrow> Rows (map (map (\<lambda>x. fmul x inv_scale)) rs))"

definition data_non_finite :: "tensor_data \<Rightarrow> bool" where
  "data_non_finite t =
     (case t of ZeroDim x \<Rightarrow> non_finite x | Rows rs \<Rightarrow> list_ex any_non_finite rs)"

fun torch_amp_foreach_non_finite_check_and_unscale ::
  "(nat \<times> nat) list \<Rightarrow> nat \<Rightarrow> flt \<Rightarrow> grad option list list \<Rightarrow> store
     \<Rightarrow> grad option list list \<times> store" where
  "torch_amp_foreach_non_finite_check_and_unscale [] found_inf inv_scale groups h = (groups, h)"
| "torch_amp_foreach_non_finite_check_and_unscale (p # ps) found_inf inv_scale groups h =
     (case grad_at groups p of
        None \<Rightarrow> torch_amp_foreach_non_finite_check_and_unscale ps found_inf inv_scale groups h
      | Some g \<Rightarrow>
          torch_amp_foreach_non_finite_check_and_unscale ps found_inf inv_scale
            (set_grad p (g\<lparr>g_data := unscale_data inv_scale (g_data g)\<rparr>) groups)
            (if data_non_finite (g_data g) then fill_float found_inf (Fin 1) h else h))"

text \<open>
  \<^verbatim>\<open>_GeneralMultiDeviceReplicator.get\<close> for the found-overflow flag: the cached copy for the
  device, or a new copy of the master there. The master is never written, so it is given
  by its value; the copies of the inverse scale are only read and are values as well.
\<close>

definition replicator_get ::
  "flt \<Rightarrow> device \<Rightarrow> (device \<times> nat) list \<Rightarrow> store \<Rightarrow> nat \<times> (device \<times> nat) list \<times> store" where
  "replicator_get master dev per_device_tensors h =
     (case map_of per_device_tensors dev of
        Some a \<Rightarrow> (a, per_device_tensors, h)
      | None \<Rightarrow>
          let (a, h1) = new_float dev master h
          in (a, dict_set dev a per_device_tensors, h1))"

text \<open>The second loop of \<^verbatim>\<open>_unscale_grads_\<close>: the lists of one device, then all devices.\<close>

fun unscale_per_dtype ::
  "device \<Rightarrow> (dtype \<times> (nat \<times> nat) list) list \<Rightarrow> flt \<Rightarrow> flt
     \<Rightarrow> grad option list list \<times> (device \<times> nat) list \<times> store
     \<Rightarrow> error + (grad option list list \<times> (device \<times> nat) list \<times> store)" where
  "unscale_per_dtype dev [] inv_scale found_inf st = Inr st"
| "unscale_per_dtype dev ((dt, grads) # rest) inv_scale found_inf (groups, flags, h) =
     (let (a, flags1, h1) = replicator_get found_inf dev flags h in
      if dev = CPU then
        (case foreach_non_finite_check_and_unscale_cpu grads a inv_scale groups h1 of
           Inl e \<Rightarrow> Inl e
         | Inr (groups1, h2) \<Rightarrow>
             unscale_per_dtype dev rest inv_scale found_inf (groups1, flags1, h2))
      else
        (let (groups1, h2) =
               torch_amp_foreach_non_finite_check_and_unscale grads a inv_scale groups h1
         in unscale_per_dtype dev rest inv_scale found_inf (groups1, flags1, h2)))"

fun unscale_per_device ::
  "(device \<times> (dtype \<times> (nat \<times> nat) list) list) list \<Rightarrow> flt \<Rightarrow> flt
     \<Rightarrow> grad option list list \<times> (device \<times> nat) list \<times> store
     \<Rightarrow> error + (grad option list list \<times> (device \<times> nat) list \<times> store)" where
  "unscale_per_device [] inv_scale found_inf st = Inr st"
| "unscale_per_device ((dev, per_dtype_grads) # rest) inv_scale found_inf st =
     (case unscale_per_dtype dev per_dtype_grads inv_scale found_inf st of
        Inl e \<Rightarrow> Inl e
      | Inr st1 \<Rightarrow> unscale_per_device rest inv_scale found_inf st1)"

definition unscale_grads ::
  "optimizer \<Rightarrow> flt \<Rightarrow> flt \<Rightarrow> bool \<Rightarrow> store
     \<Rightarrow> error + (optimizer \<times> (device \<times> nat) list \<times> store)" where
  "unscale_grads opt inv_scale found_inf allow_fp16 h =
     (case split_grads allow_fp16 (all_positions (o_param_groups opt)) (o_param_groups opt) [] of
        Inl e \<Rightarrow> Inl e
      | Inr (groups, per_device_and_dtype_grads) \<Rightarrow>
          (case unscale_per_device per_device_and_dtype_grads inv_scale found_inf
                  (groups, [], h) of
             Inl e \<Rightarrow> Inl e
           | Inr (groups1, flags, h1) \<Rightarrow> Inr (opt\<lparr>o_param_groups := groups1\<rparr>, flags, h1)))"

section \<open>Unscaling, cross-shard agreement and the step\<close>

text \<open>\<^verbatim>\<open>scale.double().reciprocal().float()\<close> on the special values.\<close>

fun reciprocal :: "flt \<Rightarrow> flt" where
  "reciprocal (Fin a) = (if a = 0 then PInf else Fin (1 / a))"
| "reciprocal PInf = Fin 0"
| "reciprocal NInf = Fin 0"
| "reciprocal NaN = NaN"

text \<open>
  Modelled from the spec: \<^verbatim>\<open>unscale_\<close> of the base class \<^verbatim>\<open>torch.cuda.amp.GradScaler\<close>,
  which the source calls through \<^verbatim>\<open>super()\<close>; it is not part of the source file. Sections
  4.2 and 4.4: the scan must not run twice for one optimizer within an iteration; it
  multiplies the gradients by the reciprocal of the scale, records one found-overflow flag
  per device touched for the optimizer, and leaves the optimizer in the stage UNSCALED.
  The flags start at 0 on the device of the scale, and half precision is disallowed on
  this path. The stages the base class tests for and the stage it stores are members of
  its own enumeration: it refuses an optimizer it has unscaled itself, but it recognises
  neither the READY nor the STEPPED that this file stores, and scans in both cases.
\<close>

definition base_unscale :: "optimizer \<Rightarrow> scaler \<Rightarrow> store \<Rightarrow> error + (optimizer \<times> scaler \<times> store)" where
  "base_unscale opt self h =
     (if \<not> s_enabled self then Inr (opt, self, h)
      else
        (case check_scale_growth_tracker ''unscale_'' self of
           Inl e \<Rightarrow> Inl e
         | Inr (sc, tr) \<Rightarrow>
             let (optimizer_state, d) = dict_get (o_id opt) (s_per_optimizer_states self) in
             if stage optimizer_state = Base UNSCALED then
               Inl (RuntimeError ''unscale_() has already been called on this optimizer since the last update().'')
             else if stage optimizer_state = Base STEPPED then
               Inl (RuntimeError ''unscale_() is being called after step().'')
             else
               (case unscale_grads opt (reciprocal (item h sc)) (Fin 0) False h of
                  Inl e \<Rightarrow> Inl e
                | Inr (opt1, flags, h1) \<Rightarrow>
                    Inr (opt1,
                         self\<lparr>s_per_optimizer_states :=
                                dict_set (o_id opt)
                                  \<lparr>stage = Base UNSCALED, found_inf_per_device = flags\<rparr> d\<rparr>,
                         h1))))"

text \<open>
  Modelled from the spec: \<^verbatim>\<open>dist.all_reduce(t, async_op=True, group=self.group)\<close> followed
  by the wait, the collective of the communication layer; it is not part of the source
  file. Section 4.3: a reduction by addition across all participating processes. After it
  the tensor \<open>t\<close> itself holds the sum of the operands of all processes; \<open>peers k\<close> is the
  sum of what the other processes contribute to the \<open>k\<close>-th reduction of the call.
\<close>

definition all_reduce :: "(nat \<Rightarrow> flt) \<Rightarrow> nat \<Rightarrow> nat \<Rightarrow> store \<Rightarrow> store" where
  "all_reduce peers k t h = fill_float t (fadd (item h t) (peers k)) h"

text \<open>
  The synchronisation loop of \<^verbatim>\<open>unscale_\<close>. \<^verbatim>\<open>v.cuda()\<close> of a CPU tensor is a new tensor on the
  current CUDA device, and \<^verbatim>\<open>v_on_cuda.cpu()\<close> is again a new tensor, which the source does
  not bind to anything.
\<close>

fun sync_found_inf :: "(nat \<Rightarrow> flt) \<Rightarrow> nat \<Rightarrow> nat list \<Rightarrow> store \<Rightarrow> store" where
  "sync_found_inf peers k [] h = h"
| "sync_found_inf peers k (v # vs) h =
     (if device_of h v = CPU then
        let (v_on_cuda, h1) = new_float (CUDA 0) (item h v) h;
            h2 = all_reduce peers k v_on_cuda h1;
            (dropped, h3) = new_float CPU (item h2 v_on_cuda) h2
        in sync_found_inf peers (Suc k) vs h3
      else sync_found_inf peers (Suc k) vs (all_reduce peers k v h))"

text \<open>
  \<^verbatim>\<open>ShardedGradScaler.unscale_\<close>. The attribute \<^verbatim>\<open>display_warning\<close> exists only on an
  instance that was enabled at construction; the warning about an optimizer that is not an
  \<^verbatim>\<open>OSS\<close> is only logged and leaves no trace in the state.
\<close>

definition unscale :: "(nat \<Rightarrow> flt) \<Rightarrow> optimizer \<Rightarrow> scaler \<Rightarrow> store
     \<Rightarrow> error + (optimizer \<times> scaler \<times> store)" where
  "unscale peers opt self h =
     (if \<not> s_enabled self then
        Inl (AttributeError ''ShardedGradScaler object has no attribute display_warning'')
      else
        (case base_unscale opt (self\<lparr>s_display_warning := False\<rparr>) h of
           Inl e \<Rightarrow> Inl e
         | Inr (opt1, self1, h1) \<Rightarrow>
             let (optimizer_state, d) = dict_get (o_id opt) (s_per_optimizer_states self1)
             in Inr (opt1, self1\<lparr>s_per_optimizer_states := d\<rparr>,
                     sync_found_inf peers 0 (map snd (found_inf_per_device optimizer_state)) h1)))"

text \<open>\<^verbatim>\<open>sum(v.item() for v in ...)\<close> starts from 0.\<close>

definition sum_items :: "store \<Rightarrow> nat list \<Rightarrow> flt" where
  "sum_items h vs = foldl fadd (Fin 0) (map (item h) vs)"

definition maybe_opt_step :: "optimizer \<Rightarrow> opt_state \<Rightarrow> call \<Rightarrow> store \<Rightarrow> retval \<times> optimizer" where
  "maybe_opt_step opt optimizer_state c h =
     (if \<not> truthy (sum_items h (map snd (found_inf_per_device optimizer_state)))
        then optimizer_step opt c
      else (PyNone, opt))"

definition step :: "(nat \<Rightarrow> flt) \<Rightarrow> optimizer \<Rightarrow> call \<Rightarrow> scaler \<Rightarrow> store
     \<Rightarrow> error + (retval \<times> optimizer \<times> scaler \<times> store)" where
  "step peers opt c self h =
     (if \<not> s_enabled self then
        (let (r, opt1) = optimizer_step opt c in Inr (r, opt1, self, h))
      else if c_closure c then
        Inl (RuntimeError ''Closure use is not currently supported if GradScaler is enabled.'')
      else
        (case check_scale_growth_tracker ''step'' self of
           Inl e \<Rightarrow> Inl e
         | Inr _ \<Rightarrow>
             let (optimizer_state, d) = dict_get (o_id opt) (s_per_optimizer_states self);
                 self1 = self\<lparr>s_per_optimizer_states := d\<rparr>
             in
             if stage optimizer_state = Own STEPPED then
               Inl (RuntimeError ''step() has already been called since the last update().'')
             else if o_step_supports_amp_scaling opt then
               (let (r, opt1) = optimizer_step opt (c\<lparr>c_grad_scaler := True\<rparr>)
                in Inr (r, opt1,
                        self1\<lparr>s_per_optimizer_states :=
                                 dict_set (o_id opt) (optimizer_state\<lparr>stage := Own STEPPED\<rparr>) d\<rparr>,
                        h))
             else
               (case (if stage optimizer_state = Own READY then unscale peers opt self1 h
                      else Inr (opt, self1, h)) of
                  Inl e \<Rightarrow> Inl e
                | Inr (opt1, self2, h1) \<Rightarrow>
                    let (optimizer_state1, d1) =
                          dict_get (o_id opt) (s_per_optimizer_states self2)
                    in
                    if \<not> length (found_inf_per_device optimizer_state1) > 0 then
                      Inl (AssertionError ''No inf checks were recorded for this optimizer.'')
                    else
                      (let (r, opt2) = maybe_opt_step opt1 optimizer_state1 c h1
                       in Inr (r, opt2,
                               self2\<lparr>s_per_optimizer_states :=
                                        dict_set (o_id opt)
                                          (optimizer_state1\<lparr>stage := Own STEPPED\<rparr>) d1\<rparr>,
                               h1)))))"

definition check_inf_per_device :: "optimizer \<Rightarrow> scaler \<Rightarrow> store
     \<Rightarrow> error + ((device \<times> nat) list \<times> optimizer \<times> scaler \<times> store)" where
  "check_inf_per_device opt self h =
     (case check_scale_growth_tracker ''_check_inf_per_device'' self of
        Inl e \<Rightarrow> Inl e
      | Inr _ \<Rightarrow>
          (case unscale_grads opt (Fin 1) (Fin 0) True h of
             Inl e \<Rightarrow> Inl e
           | Inr (opt1, flags, h1) \<Rightarrow>
               let (optimizer_state, d) = dict_get (o_id opt) (s_per_optimizer_states self)
               in Inr (flags, opt1,
                       self\<lparr>s_per_optimizer_states :=
                              dict_set (o_id opt)
                                (optimizer_state\<lparr>found_inf_per_device := flags\<rparr>) d\<rparr>,
                       h1)))"

definition found_inf_per_device_of :: "optimizer \<Rightarrow> scaler \<Rightarrow> (device \<times> nat) list \<times> scaler" where
  "found_inf_per_device_of opt self =
     (let (optimizer_state, d) = dict_get (o_id opt) (s_per_optimizer_states self)
      in (found_inf_per_device optimizer_state, self\<lparr>s_per_optimizer_states := d\<rparr>))"

section \<open>Auxiliary notions\<close>

text \<open>
  The stage recorded for an optimizer (READY for one not yet tracked), and whether no
  parameter of an optimizer carries a gradient.
\<close>

definition stage_of :: "optimizer \<Rightarrow> scaler \<Rightarrow> stage_value" where
  "stage_of opt self = stage (fst (dict_get (o_id opt) (s_per_optimizer_states self)))"

definition has_no_grads :: "optimizer \<Rightarrow> bool" where
  "has_no_grads opt = list_all (list_all (\<lambda>p. p = None)) (o_param_groups opt)"

text \<open>
  Both buffers are materialized: the scale is a tensor of the store, and the growth tracker
  is a tensor or, as the CPU update path leaves it, a plain int (which needs the scale on
  the CPU).
\<close>

definition buffers_ok :: "scaler \<Rightarrow> store \<Rightarrow> bool" where
  "buffers_ok self h =
     (case s_scale self of
        None \<Rightarrow> False
      | Some sc \<Rightarrow>
          sc < fnext h \<and>
          (case s_growth_tracker self of
             None \<Rightarrow> False
           | Some (TrackerTensor t) \<Rightarrow> True
           | Some (TrackerInt n) \<Rightarrow> device_of h sc = CPU))"

text \<open>The number the growth tracker attribute holds, whether tensor or int.\<close>

definition tracker_count :: "scaler \<Rightarrow> store \<Rightarrow> int" where
  "tracker_count self h =
     (case s_growth_tracker self of
        None \<Rightarrow> s_init_growth_tracker self
      | Some (TrackerTensor t) \<Rightarrow> snd (ints h t)
      | Some (TrackerInt n) \<Rightarrow> n)"

text \<open>
  A store extends another when it has the same int tensors and the same float tensors at
  the addresses already allocated.
\<close>

definition extends :: "store \<Rightarrow> store \<Rightarrow> bool" where
  "extends h h' = (fnext h \<le> fnext h' \<and> (\<forall>a < fnext h. floats h' a = floats h a)
                    \<and> ints h' = ints h \<and> inext h' = inext h)"

section \<open>Iterations with simulated overflow flags\<close>

text \<open>
  What the steps of one iteration leave behind, given for every optimizer stepped the value
  of its found-overflow flag on each device: one new flag tensor per entry, and the
  optimizer in the stage STEPPED. An iteration then ends with \<^verbatim>\<open>update()\<close>.
\<close>

fun new_flags :: "(device \<times> flt) list \<Rightarrow> store \<Rightarrow> (device \<times> nat) list \<times> store" where
  "new_flags [] h = ([], h)"
| "new_flags ((dev, v) # fs) h =
     (let (a, h1) = new_float dev v h;
          (r, h2) = new_flags fs h1
      in ((dev, a) # r, h2))"

fun simulate_states :: "(nat \<times> (device \<times> flt) list) list \<Rightarrow> store
     \<Rightarrow> (nat \<times> opt_state) list \<times> store" where
  "simulate_states [] h = ([], h)"
| "simulate_states ((k, fs) # rest) h =
     (let (flags, h1) = new_flags fs h;
          (d, h2) = simulate_states rest h1
      in ((k, \<lparr>stage = Own STEPPED, found_inf_per_device = flags\<rparr>) # d, h2))"

definition simulate_checks :: "(nat \<times> (device \<times> flt) list) list \<Rightarrow> scaler \<Rightarrow> store
     \<Rightarrow> scaler \<times> store" where
  "simulate_checks checks self h =
     (let (d, h1) = simulate_states checks h in (self\<lparr>s_per_optimizer_states := d\<rparr>, h1))"

fun iterations :: "(nat \<times> (device \<times> flt) list) list list \<Rightarrow> scaler \<Rightarrow> store
     \<Rightarrow> error + (scaler \<times> store)" where
  "iterations [] self h = Inr (self, h)"
| "iterations (checks # rest) self h =
     (let (self1, h1) = simulate_checks checks self h in
      case update None self1 h1 of
        Inl e \<Rightarrow> Inl e
      | Inr (self2, h2) \<Rightarrow> iterations rest self2 h2)"

text \<open>
  An iteration is overflow-free when flags were recorded and their sum, the combined flag
  of \<^verbatim>\<open>update\<close>, is zero.
\<close>

definition flag_values :: "(nat \<times> (device \<times> flt) list) list \<Rightarrow> flt list" where
  "flag_values checks = concat (map (\<lambda>(k, fs). map snd fs) checks)"

definition overflow_free :: "(nat \<times> (device \<times> flt) list) list \<Rightarrow> bool" where
  "overflow_free checks =
     (case flag_values checks of [] \<Rightarrow> False | v # vs \<Rightarrow> foldl fadd v vs = Fin 0)"

section \<open>Example inputs\<close>

definition disabled_scaler :: scaler where
  "disabled_scaler = \<lparr>s_enabled = False, s_init_scale = Fin 65536, s_scale = None,
     s_growth_factor = Fin 2, s_backoff_factor = Fin (1/2), s_growth_interval = 2000,
     s_init_growth_tracker = 0, s_growth_tracker = None, s_per_optimizer_states = [],
     s_display_warning = True\<rparr>"

definition plain_call :: call where
  "plain_call = \<lparr>c_args = [], c_closure = False, c_grad_scaler = False\<rparr>"

definition example_optimizer :: "grad option list list \<Rightarrow> optimizer" where
  "example_optimizer groups = \<lparr>o_id = 7, o_is_oss = True, o_step_supports_amp_scaling = False,
     o_param_groups = groups, o_step_result = (\<lambda>c. Returned 1), o_step_calls = []\<rparr>"

definition cuda_scaler :: scaler where
  "cuda_scaler = \<lparr>s_enabled = True, s_init_scale = Fin 1024, s_scale = Some 0,
     s_growth_factor = Fin 2, s_backoff_factor = Fin (1/2), s_growth_interval = 3,
     s_init_growth_tracker = 0, s_growth_tracker = Some (TrackerTensor 0),
     s_per_optimizer_states = [], s_display_warning = True\<rparr>"

definition cuda_store :: store where
  "cuda_store = \<lparr>floats = (\<lambda>_. (CPU, Fin 0))(0 := (CUDA 0, Fin 1024)), fnext = 1,
     ints = (\<lambda>_. (CPU, 0))(0 := (CUDA 0, 2)), inext = 1\<rparr>"

definition example_blob :: "(string \<times> pyval) list" where
  "example_blob = [(''scale'', PyFloat (Fin 512)), (''growth_factor'', PyFloat (Fin 4)),
     (''backoff_factor'', PyFloat (Fin (1/4))), (''growth_interval'', PyInt 10),
     (''_growth_tracker'', PyInt 5)]"

text \<open>The store of an instance on a CUDA device whose scale has moved away from its initial value.\<close>

definition backed_off_store :: store where
  "backed_off_store = \<lparr>floats = (\<lambda>_. (CPU, Fin 0))(0 := (CUDA 0, Fin 512)), fnext = 1,
     ints = (\<lambda>_. (CPU, 0))(0 := (CUDA 0, 2)), inext = 1\<rparr>"

definition cpu_scaler :: scaler where
  "cpu_scaler = \<lparr>s_enabled = True, s_init_scale = Fin 1024, s_scale = Some 0,
     s_growth_factor = Fin 2, s_backoff_factor = Fin (1/2), s_growth_interval = 3,
     s_init_growth_tracker = 0, s_growth_tracker = Some (TrackerTensor 0),
     s_per_optimizer_states = [], s_display_warning = True\<rparr>"

definition cpu_store :: store where
  "cpu_store = \<lparr>floats = (\<lambda>_. (CPU, Fin 0))(0 := (CPU, Fin 1024)), fnext = 1,
     ints = (\<lambda>_. (CPU, 0)), inext = 1\<rparr>"

definition cpu_grad :: "flt list list \<Rightarrow> grad" where
  "cpu_grad rs = \<lparr>g_device = CPU, g_dtype = Float32, g_indices = None, g_data = Rows rs\<rparr>"

definition no_peers :: "nat \<Rightarrow> flt" where "no_peers k = Fin 0"

definition clean_checks :: "(nat \<times> (device \<times> flt) list) list" where
  "clean_checks = [(7, [(CPU, Fin 0), (CUDA 0, Fin 0)]), (8, [(CPU, Fin 0)])]"

definition overflowing_peer :: "nat \<Rightarrow> flt" where "overflowing_peer k = Fin 1"

section \<open>Disabled instances\<close>

text \<open>
  C7. On a disabled instance \<^verbatim>\<open>scale\<close> returns its input unchanged, \<^verbatim>\<open>get_scale\<close> returns 1.0,
  \<^verbatim>\<open>step\<close> forwards to \<^verbatim>\<open>optimizer.step\<close> with the given arguments and returns its result,
  \<^verbatim>\<open>update\<close> returns without changing any state, and \<^verbatim>\<open>state_dict\<close> returns an empty mapping.
\<close>

theorem disabled_instance_passes_through:
  assumes "\<not> s_enabled self"
  shows "scale outs self h = Inr (outs, self, h)
       \<and> get_scale self h = Fin 1
       \<and> step peers opt c self h =
           Inr (fst (optimizer_step opt c), snd (optimizer_step opt c), self, h)
       \<and> update new_scale self h = Inr (self, h)
       \<and> state_dict self h = Inr []"
  using assms
  by (simp add: scale_def get_scale_def step_def update_def state_dict_def split_beta)

theorem disabled_instance_passes_through_witness:
  "\<not> s_enabled disabled_scaler
   \<and> scale (PyList [Tensor CPU [Fin 3], NotIterable]) disabled_scaler empty_store
       = Inr (PyList [Tensor CPU [Fin 3], NotIterable], disabled_scaler, empty_store)
   \<and> get_scale disabled_scaler empty_store = Fin 1
   \<and> step (\<lambda>k. Fin 0) (example_optimizer []) plain_call disabled_scaler empty_store
       = Inr (Returned 1, (example_optimizer [])\<lparr>o_step_calls := [plain_call]\<rparr>,
              disabled_scaler, empty_store)
   \<and> update None disabled_scaler empty_store = Inr (disabled_scaler, empty_store)
   \<and> state_dict disabled_scaler empty_store = Inr []"
  using disabled_instance_passes_through
          [of disabled_scaler "PyList [Tensor CPU [Fin 3], NotIterable]" empty_store
              "\<lambda>k. Fin 0" "example_optimizer []" plain_call None]
  by (simp add: disabled_scaler_def optimizer_step_def example_optimizer_def)

section \<open>Explicit scale\<close>

text \<open>
  C10. On an enabled instance with materialized buffers, \<^verbatim>\<open>update(new_scale)\<close> with an
  explicit value succeeds whatever checks were recorded, also none: a float, or a
  one-element CUDA float tensor with \<^verbatim>\<open>requires_grad\<close> false, is written into the scale buffer,
  the growth tracker is left as it is, and the per-optimizer state map becomes empty. Any
  other tensor fails the assertion.
\<close>

theorem update_with_explicit_scale:
  assumes "s_enabled self" and "s_scale self = Some sc" and "s_growth_tracker self = Some tr"
  shows "(new_scale = NewScaleFloat x \<or> new_scale = NewScaleTensor True [x] False \<longrightarrow>
           update (Some new_scale) self h
             = Inr (self\<lparr>s_per_optimizer_states := []\<rparr>, fill_float sc x h)
           \<and> item (fill_float sc x h) sc = x
           \<and> ints (fill_float sc x h) = ints h)
       \<and> (\<not> (is_cuda_float \<and> length elems = 1 \<and> \<not> requires_grad) \<longrightarrow>
           update (Some (NewScaleTensor is_cuda_float elems requires_grad)) self h
             = Inl (AssertionError new_scale_reason))"
  using assms
  by (auto simp add: update_def check_scale_growth_tracker_def fill_float_def item_def)

theorem update_with_explicit_scale_witness:
  "s_enabled cuda_scaler \<and> s_scale cuda_scaler = Some 0
   \<and> s_growth_tracker cuda_scaler = Some (TrackerTensor 0)
   \<and> recorded_flags cuda_scaler = []
   \<and> update (Some (NewScaleFloat (Fin 4096))) cuda_scaler cuda_store
        = Inr (cuda_scaler, fill_float 0 (Fin 4096) cuda_store)
   \<and> update (Some (NewScaleTensor True [Fin 4096] False)) cuda_scaler cuda_store
        = Inr (cuda_scaler, fill_float 0 (Fin 4096) cuda_store)
   \<and> item (fill_float 0 (Fin 4096) cuda_store) 0 = Fin 4096
   \<and> update (Some (NewScaleTensor False [Fin 4096] False)) cuda_scaler cuda_store
        = Inl (AssertionError new_scale_reason)
   \<and> update None cuda_scaler cuda_store
        = Inl (AssertionError ''No inf checks were recorded prior to update.'')"
  using update_with_explicit_scale
          [of cuda_scaler 0 "TrackerTensor 0" "NewScaleFloat (Fin 4096)" "Fin 4096"
              cuda_store False "[Fin 4096]" False]
        update_with_explicit_scale
          [of cuda_scaler 0 "TrackerTensor 0" "NewScaleTensor True [Fin 4096] False" "Fin 4096"
              cuda_store False "[Fin 4096]" False]
  by (simp add: cuda_scaler_def recorded_flags_def update_def check_scale_growth_tracker_def)

section \<open>Loading and pickling\<close>

text \<open>
  C8. \<^verbatim>\<open>load_state_dict\<close> on a disabled instance changes nothing, for every blob; on an
  enabled instance an empty blob raises the error that the source state dict is empty; and
  a blob with the five entries, loaded while the scale and growth-tracker buffers exist,
  overwrites those two buffers in place: the attributes keep referring to the same tensors,
  which now hold the loaded values, and no tensor is created.
\<close>

theorem load_state_dict_cases:
  "(\<not> s_enabled self \<longrightarrow> load_state_dict d self h = Inr (self, h))
   \<and> (s_enabled self \<longrightarrow>
        load_state_dict [] self h = Inl (RuntimeError ''The source state dict is empty, possibly because it was saved from a disabled instance of GradScaler.''))
   \<and> (s_enabled self \<and> d \<noteq> [] \<and> s_scale self = Some sc
        \<and> s_growth_tracker self = Some (TrackerTensor t)
        \<and> float_entry d ''scale'' = Inr v \<and> float_entry d ''growth_factor'' = Inr gf
        \<and> float_entry d ''backoff_factor'' = Inr bf \<and> int_entry d ''growth_interval'' = Inr gi
        \<and> int_entry d ''_growth_tracker'' = Inr n \<longrightarrow>
        (\<exists>self' h'. load_state_dict d self h = Inr (self', h')
           \<and> s_scale self' = Some sc \<and> s_growth_tracker self' = Some (TrackerTensor t)
           \<and> floats h' = (floats h)(sc := (device_of h sc, v))
           \<and> ints h' = (ints h)(t := (fst (ints h t), n))
           \<and> fnext h' = fnext h \<and> inext h' = inext h
           \<and> get_scale self' h' = v \<and> get_growth_tracker self' h' = Inr n))"
  by (auto simp add: load_state_dict_def fill_float_def fill_int_def get_scale_def
        get_growth_tracker_def item_def device_of_def)

theorem load_state_dict_cases_witness:
  "\<not> s_enabled disabled_scaler
   \<and> load_state_dict example_blob disabled_scaler cuda_store = Inr (disabled_scaler, cuda_store)
   \<and> s_enabled cuda_scaler
   \<and> load_state_dict [] cuda_scaler cuda_store = Inl (RuntimeError ''The source state dict is empty, possibly because it was saved from a disabled instance of GradScaler.'')
   \<and> example_blob \<noteq> [] \<and> s_scale cuda_scaler = Some 0
   \<and> s_growth_tracker cuda_scaler = Some (TrackerTensor 0)
   \<and> (\<exists>self' h'. load_state_dict example_blob cuda_scaler cuda_store = Inr (self', h')
         \<and> s_scale self' = Some 0 \<and> s_growth_tracker self' = Some (TrackerTensor 0)
         \<and> floats h' = (floats cuda_store)(0 := (CUDA 0, Fin 512))
         \<and> ints h' = (ints cuda_store)(0 := (CUDA 0, 5))
         \<and> fnext h' = fnext cuda_store \<and> inext h' = inext cuda_store
         \<and> get_scale self' h' = Fin 512 \<and> get_growth_tracker self' h' = Inr 5)"
  using load_state_dict_cases [of disabled_scaler example_blob cuda_store]
        load_state_dict_cases [of cuda_scaler example_blob cuda_store 0 0 "Fin 512" "Fin 4"
                                  "Fin (1/4)" 10 5]
  by (simp add: disabled_scaler_def cuda_scaler_def example_blob_def float_entry_def
        int_entry_def cuda_store_def device_of_def)

text \<open>
  C9. \<^verbatim>\<open>__getstate__\<close> of an enabled instance raises while any per-optimizer state is
  recorded; when it succeeds, the per-optimizer state map is empty and the extracted state
  carries the scale and the growth tracker as plain numbers, with both buffers \<^verbatim>\<open>None\<close>, so
  that they are re-created lazily: the number stored as initial scale is the current
  content of the scale buffer (the old initial scale only while there is no buffer), the
  number stored as initial tracker count is the current content of the tracker buffer, and
  every other attribute is copied as it is. It does succeed at an iteration boundary
  whenever the tracker attribute is not a plain int.
\<close>

theorem getstate_only_between_iterations:
  assumes "s_enabled self"
  shows "(s_per_optimizer_states self \<noteq> [] \<longrightarrow>
            getstate self h = Inl (AssertionError ''A GradScaler instance may only be pickled at the beginning of an iteration, or at the end after scaler.update().''))
       \<and> (\<forall>state. getstate self h = Inr state \<longrightarrow>
            s_per_optimizer_states self = []
            \<and> s_init_scale state = get_scale self h
            \<and> get_growth_tracker self h = Inr (s_init_growth_tracker state)
            \<and> s_scale state = None \<and> s_growth_tracker state = None
            \<and> get_scale state h' = get_scale self h
            \<and> (\<forall>sc. s_scale self = Some sc \<longrightarrow> s_init_scale state = snd (floats h sc))
            \<and> (s_scale self = None \<longrightarrow> s_init_scale state = s_init_scale self)
            \<and> (\<forall>t. s_growth_tracker self = Some (TrackerTensor t) \<longrightarrow>
                   s_init_growth_tracker state = snd (ints h t))
            \<and> (s_growth_tracker self = None \<longrightarrow>
                   s_init_growth_tracker state = s_init_growth_tracker self)
            \<and> state = self\<lparr>s_init_scale := s_init_scale state,
                            s_init_growth_tracker := s_init_growth_tracker state,
                            s_scale := None, s_growth_tracker := None\<rparr>)
       \<and> (s_per_optimizer_states self = [] \<and> (\<forall>n. s_growth_tracker self \<noteq> Some (TrackerInt n)) \<longrightarrow>
            (\<exists>state. getstate self h = Inr state))"
  using assms
  by (auto simp add: getstate_def get_scale_def get_growth_tracker_def item_def Let_def
        split: option.splits tracker.splits sum.splits if_splits)

theorem getstate_only_between_iterations_witness:
  "s_enabled cuda_scaler
   \<and> getstate (cuda_scaler\<lparr>s_per_optimizer_states := [(7, refresh_per_optimizer_state)]\<rparr>)
         backed_off_store
       = Inl (AssertionError ''A GradScaler instance may only be pickled at the beginning of an iteration, or at the end after scaler.update().'')
   \<and> s_per_optimizer_states cuda_scaler = []
   \<and> s_init_scale cuda_scaler = Fin 1024 \<and> s_init_growth_tracker cuda_scaler = 0
   \<and> s_scale cuda_scaler = Some 0 \<and> snd (floats backed_off_store 0) = Fin 512
   \<and> s_growth_tracker cuda_scaler = Some (TrackerTensor 0) \<and> snd (ints backed_off_store 0) = 2
   \<and> getstate cuda_scaler backed_off_store
       = Inr (cuda_scaler\<lparr>s_init_scale := Fin 512, s_init_growth_tracker := 2,
                          s_scale := None, s_growth_tracker := None\<rparr>)"
  using getstate_only_between_iterations
          [of "cuda_scaler\<lparr>s_per_optimizer_states := [(7, refresh_per_optimizer_state)]\<rparr>"
              backed_off_store empty_store]
        getstate_only_between_iterations [of cuda_scaler backed_off_store empty_store]
  by (simp add: cuda_scaler_def backed_off_store_def getstate_def get_scale_def
        get_growth_tracker_def item_def)

section \<open>Sequencing errors\<close>

lemma map_of_dict_set: "map_of (dict_set k v d) k = Some v"
  by (induction d) auto

lemma dict_get_present: "map_of d k = Some v \<Longrightarrow> dict_get k d = (v, d)"
  by (simp add: dict_get_def)

lemma dict_get_dict_set: "dict_get k (dict_set k v d) = (v, dict_set k v d)"
  by (simp add: dict_get_def map_of_dict_set)

lemma base_unscale_keeps:
  assumes "base_unscale opt self h = Inr (opt1, self1, h1)" and "s_enabled self"
  shows "s_enabled self1 \<and> s_scale self1 = s_scale self
         \<and> s_growth_tracker self1 = s_growth_tracker self
         \<and> (\<exists>st. map_of (s_per_optimizer_states self1) (o_id opt) = Some st)"
  using assms
  by (auto simp add: base_unscale_def split_beta map_of_dict_set
        split: sum.splits if_splits)

lemma unscale_keeps:
  assumes "unscale peers opt self h = Inr (opt1, self1, h1)"
  shows "s_enabled self1 \<and> s_scale self1 = s_scale self
         \<and> s_growth_tracker self1 = s_growth_tracker self"
  using assms base_unscale_keeps [of opt "self\<lparr>s_display_warning := False\<rparr>" h]
  by (auto simp add: unscale_def split_beta split: sum.splits if_splits)

lemma step_marks_stepped:
  assumes "step peers opt c self h = Inr (r, opt1, self1, h1)" and "s_enabled self"
  shows "s_enabled self1 \<and> s_scale self1 \<noteq> None \<and> s_growth_tracker self1 \<noteq> None
         \<and> (\<exists>st. dict_get (o_id opt) (s_per_optimizer_states self1)
                     = (st, s_per_optimizer_states self1) \<and> stage st = Own STEPPED)"
proof -
  from assms have chk: "s_scale self \<noteq> None \<and> s_growth_tracker self \<noteq> None"
    by (auto simp add: step_def check_scale_growth_tracker_def
          split: if_splits option.splits sum.splits)
  show ?thesis
  proof (cases "o_step_supports_amp_scaling opt")
    case True
    with assms chk show ?thesis
      by (auto simp add: step_def split_beta Let_def dict_get_dict_set
            split: if_splits sum.splits)
  next
    case False
    with assms chk show ?thesis
      by (auto simp add: step_def split_beta Let_def dict_get_dict_set
            split: if_splits sum.splits dest!: unscale_keeps)
  qed
qed

lemma dict_get_twice:
  "dict_get k (snd (dict_get k d)) = (fst (dict_get k d), snd (dict_get k d))"
  by (auto simp add: dict_get_def map_add_def split: option.splits)

lemma grad_at_no_grads:
  assumes "list_all (list_all (\<lambda>p. p = None)) groups"
  shows "grad_at groups p = None"
proof (cases "fst p < length groups \<and> snd p < length (groups ! fst p)")
  case True
  then have "groups ! fst p \<in> set groups" and "groups ! fst p ! snd p \<in> set (groups ! fst p)"
    by simp_all
  with assms have "groups ! fst p ! snd p = None"
    by (auto simp add: list_all_iff)
  with True show ?thesis by (simp add: grad_at_def)
next
  case False
  then show ?thesis by (auto simp add: grad_at_def)
qed

lemma split_grads_no_grads:
  assumes "list_all (list_all (\<lambda>p. p = None)) groups"
  shows "split_grads allow_fp16 ps groups d = Inr (groups, d)"
  using assms by (induction ps) (simp_all add: grad_at_no_grads)

lemma unscale_grads_no_grads:
  assumes "has_no_grads opt"
  shows "unscale_grads opt inv_scale found_inf allow_fp16 h = Inr (opt, [], h)"
  using assms by (simp add: unscale_grads_def has_no_grads_def split_grads_no_grads)

lemma unscale_no_grads:
  assumes "s_enabled self" and "s_scale self = Some sc" and "s_growth_tracker self = Some tr"
    and "stage_of opt self = Own READY" and "has_no_grads opt"
  shows "unscale peers opt self h =
           Inr (opt,
                self\<lparr>s_display_warning := False,
                      s_per_optimizer_states :=
                        dict_set (o_id opt) \<lparr>stage = Base UNSCALED, found_inf_per_device = []\<rparr>
                          (snd (dict_get (o_id opt) (s_per_optimizer_states self)))\<rparr>,
                h)"
  using assms
  by (simp add: unscale_def base_unscale_def check_scale_growth_tracker_def stage_of_def
        split_beta unscale_grads_no_grads dict_get_dict_set)

lemmas eval_defs = step_def check_scale_growth_tracker_def dict_get_def unscale_def base_unscale_def
   unscale_grads_def all_positions_def grad_at_def set_grad_def append_grad_def replicator_get_def
   foreach_non_finite_check_and_unscale_cpu_def new_float_def new_int_def item_def device_of_def
   fill_float_def all_reduce_def maybe_opt_step_def sum_items_def truthy_def optimizer_step_def
   any_non_finite_def Let_def refresh_per_optimizer_state_def cpu_scaler_def cpu_store_def cpu_grad_def no_peers_def plain_call_def example_optimizer_def

text \<open>
  What holds on an enabled instance: a \<^verbatim>\<open>step\<close> for an optimizer whose recorded stage is this
  file's STEPPED raises the sequencing error; a \<^verbatim>\<open>step\<close> that returned leaves that stage,
  so a second \<^verbatim>\<open>step\<close> right after it fails (a closure keyword is rejected first, with its
  own error); \<^verbatim>\<open>update()\<close> without a new scale fails when no overflow check is recorded for
  any tracked optimizer, with the no-checks error once the buffers exist; and \<^verbatim>\<open>step\<close> fails
  with its no-checks error when unscaling records no flag for the optimizer (no parameter
  has a gradient), or when the optimizer was unscaled with no flag recorded.
\<close>

lemma stepped_stage_rejects_step:
  assumes "s_enabled self" and "\<not> c_closure c"
    and "s_scale self \<noteq> None" and "s_growth_tracker self \<noteq> None"
    and "stage_of opt self = Own STEPPED"
  shows "step peers opt c self h =
           Inl (RuntimeError ''step() has already been called since the last update().'')"
  using assms
  by (auto simp add: step_def check_scale_growth_tracker_def stage_of_def split_beta Let_def)

lemma sequencing_errors:
  assumes "s_enabled self"
  shows "(step peers opt c self h = Inr (r, opt1, self1, h1) \<and> o_id opt2 = o_id opt \<longrightarrow>
            (\<exists>e. step peers2 opt2 c2 self1 h1 = Inl e)
            \<and> (\<not> c_closure c2 \<longrightarrow>
                 step peers2 opt2 c2 self1 h1 =
                   Inl (RuntimeError ''step() has already been called since the last update().'')))
       \<and> (recorded_flags self = [] \<longrightarrow>
            (\<exists>e. update None self h = Inl e)
            \<and> (s_scale self \<noteq> None \<and> s_growth_tracker self \<noteq> None \<longrightarrow>
                 update None self h =
                   Inl (AssertionError ''No inf checks were recorded prior to update.'')))
       \<and> (\<not> c_closure c \<and> s_scale self \<noteq> None \<and> s_growth_tracker self \<noteq> None
            \<and> \<not> o_step_supports_amp_scaling opt
            \<and> (stage_of opt self = Own READY \<and> has_no_grads opt
                \<or> stage_of opt self = Base UNSCALED \<and> fst (found_inf_per_device_of opt self) = [])
            \<longrightarrow> step peers opt c self h =
                  Inl (AssertionError ''No inf checks were recorded for this optimizer.''))"
proof (intro conjI impI)
  assume a: "step peers opt c self h = Inr (r, opt1, self1, h1) \<and> o_id opt2 = o_id opt"
  from step_marks_stepped [of peers opt c self h r opt1 self1 h1] a assms
  obtain st where en: "s_enabled self1" and sc: "s_scale self1 \<noteq> None"
    and tr: "s_growth_tracker self1 \<noteq> None"
    and dg: "dict_get (o_id opt2) (s_per_optimizer_states self1)
               = (st, s_per_optimizer_states self1)"
    and st: "stage st = Own STEPPED"
    by auto
  from en sc tr dg st
  show second: "\<not> c_closure c2 \<Longrightarrow>
      step peers2 opt2 c2 self1 h1 =
        Inl (RuntimeError ''step() has already been called since the last update().'')"
    by (auto simp add: step_def check_scale_growth_tracker_def)
  show "\<exists>e. step peers2 opt2 c2 self1 h1 = Inl e"
  proof (cases "c_closure c2")
    case True
    with en show ?thesis by (simp add: step_def)
  next
    case False
    with second show ?thesis by blast
  qed
next
  assume "recorded_flags self = []"
  with assms show "\<exists>e. update None self h = Inl e"
    by (auto simp add: update_def check_scale_growth_tracker_def split: option.splits)
next
  assume "recorded_flags self = []"
    and "s_scale self \<noteq> None \<and> s_growth_tracker self \<noteq> None"
  with assms show "update None self h =
      Inl (AssertionError ''No inf checks were recorded prior to update.'')"
    by (auto simp add: update_def check_scale_growth_tracker_def)
next
  assume a: "\<not> c_closure c \<and> s_scale self \<noteq> None \<and> s_growth_tracker self \<noteq> None
      \<and> \<not> o_step_supports_amp_scaling opt
      \<and> (stage_of opt self = Own READY \<and> has_no_grads opt
          \<or> stage_of opt self = Base UNSCALED \<and> fst (found_inf_per_device_of opt self) = [])"
  then obtain sc tr where sc: "s_scale self = Some sc" and tr: "s_growth_tracker self = Some tr"
    by auto
  let ?d = "snd (dict_get (o_id opt) (s_per_optimizer_states self))"
  let ?self1 = "self\<lparr>s_per_optimizer_states := ?d\<rparr>"
  from a consider
      (ready) "stage_of opt self = Own READY" "has_no_grads opt"
    | (unscaled) "stage_of opt self = Base UNSCALED" "fst (found_inf_per_device_of opt self) = []"
    by blast
  then show "step peers opt c self h =
      Inl (AssertionError ''No inf checks were recorded for this optimizer.'')"
  proof cases
    case ready
    have "stage_of opt ?self1 = Own READY"
      using ready(1) by (simp add: stage_of_def dict_get_twice)
    with assms sc tr ready(2)
    have u: "unscale peers opt ?self1 h =
        Inr (opt,
             ?self1\<lparr>s_display_warning := False,
                     s_per_optimizer_states :=
                       dict_set (o_id opt) \<lparr>stage = Base UNSCALED, found_inf_per_device = []\<rparr>
                         (snd (dict_get (o_id opt) (s_per_optimizer_states ?self1)))\<rparr>,
             h)"
      by (intro unscale_no_grads) simp_all
    from assms a sc tr ready(1) show ?thesis
      by (simp add: step_def check_scale_growth_tracker_def split_beta Let_def u
            stage_of_def dict_get_dict_set)
  next
    case unscaled
    with assms a sc tr show ?thesis
      by (simp add: step_def check_scale_growth_tracker_def split_beta Let_def
            stage_of_def found_inf_per_device_of_def dict_get_twice)
  qed
qed

lemma sequencing_errors_example:
  "s_enabled cpu_scaler
   \<and> (\<exists>r opt1 self1 h1.
         step no_peers (example_optimizer [[Some (cpu_grad [[Fin 2048]])]]) plain_call
              cpu_scaler cpu_store = Inr (r, opt1, self1, h1)
         \<and> step no_peers opt1 plain_call self1 h1 =
             Inl (RuntimeError ''step() has already been called since the last update().''))
   \<and> recorded_flags cpu_scaler = []
   \<and> update None cpu_scaler cpu_store =
       Inl (AssertionError ''No inf checks were recorded prior to update.'')
   \<and> has_no_grads (example_optimizer [[None]])
   \<and> stage_of (example_optimizer [[None]]) cpu_scaler = Own READY
   \<and> step no_peers (example_optimizer [[None]]) plain_call cpu_scaler cpu_store =
       Inl (AssertionError ''No inf checks were recorded for this optimizer.'')"
proof -
  have en: "s_enabled cpu_scaler"
    by (simp add: cpu_scaler_def)
  have "\<exists>r opt1 self1 h1.
         step no_peers (example_optimizer [[Some (cpu_grad [[Fin 2048]])]]) plain_call
              cpu_scaler cpu_store = Inr (r, opt1, self1, h1)
         \<and> o_id opt1 = o_id (example_optimizer [[Some (cpu_grad [[Fin 2048]])]])"
    by (simp add: eval_defs)
  then obtain r opt1 self1 h1 where
    first: "step no_peers (example_optimizer [[Some (cpu_grad [[Fin 2048]])]]) plain_call
              cpu_scaler cpu_store = Inr (r, opt1, self1, h1)"
    and same: "o_id opt1 = o_id (example_optimizer [[Some (cpu_grad [[Fin 2048]])]])"
    by blast
  have nc: "\<not> c_closure plain_call"
    by (simp add: plain_call_def)
  have flags: "recorded_flags cpu_scaler = []"
    by (simp add: recorded_flags_def cpu_scaler_def)
  have bufs: "s_scale cpu_scaler \<noteq> None \<and> s_growth_tracker cpu_scaler \<noteq> None"
    by (simp add: cpu_scaler_def)
  have ng: "has_no_grads (example_optimizer [[None]])"
    by (simp add: has_no_grads_def example_optimizer_def)
  have rd: "stage_of (example_optimizer [[None]]) cpu_scaler = Own READY"
    by (simp add: stage_of_def dict_get_def cpu_scaler_def refresh_per_optimizer_state_def)
  have na: "\<not> o_step_supports_amp_scaling (example_optimizer [[None]])"
    by (simp add: example_optimizer_def)
  from sequencing_errors [OF en, of no_peers "example_optimizer [[Some (cpu_grad [[Fin 2048]])]]"
         plain_call cpu_store r opt1 self1 h1 opt1 no_peers plain_call]
       sequencing_errors [OF en, of no_peers "example_optimizer [[None]]" plain_call cpu_store]
       en first same nc flags bufs ng rd na
  show ?thesis
    by blast
qed

text \<open>
  C5. Specified: a second \<^verbatim>\<open>step\<close> for the same optimizer without an intervening
  \<^verbatim>\<open>update()\<close> raises a sequencing error, \<^verbatim>\<open>update()\<close> with no recorded check fails, and
  \<^verbatim>\<open>step\<close> fails when unscaling recorded no check. The stage that \<^verbatim>\<open>step\<close> stores is a member
  of this file's own \<^verbatim>\<open>OptState\<close>, which the inherited \<^verbatim>\<open>unscale_\<close> does not recognise: called
  after a \<^verbatim>\<open>step\<close>, \<^verbatim>\<open>unscale_\<close> scans and unscales the gradients again and stores its own
  UNSCALED, and the \<^verbatim>\<open>step\<close> after that is accepted. With no \<^verbatim>\<open>update()\<close> in between,
  \<^verbatim>\<open>optimizer.step\<close> has then run twice, on a gradient divided by the scale twice
  (2048, then 2, then 1/512, for the scale 1024).
\<close>

theorem second_step_after_unscale_accepted:
  "\<exists>r1 opt1 self1 h1 opt2 self2 h2 r3 opt3 self3 h3.
     step no_peers (example_optimizer [[Some (cpu_grad [[Fin 2048]])]]) plain_call
       cpu_scaler cpu_store = Inr (r1, opt1, self1, h1)
     \<and> stage_of opt1 self1 = Own STEPPED \<and> o_step_calls opt1 = [plain_call]
     \<and> unscale no_peers opt1 self1 h1 = Inr (opt2, self2, h2)
     \<and> stage_of opt2 self2 = Base UNSCALED
     \<and> step no_peers opt2 plain_call self2 h2 = Inr (r3, opt3, self3, h3)
     \<and> r3 = Returned 1 \<and> o_step_calls opt3 = [plain_call, plain_call]
     \<and> o_param_groups opt3 = [[Some (cpu_grad [[Fin (1 / 512)]])]]
     \<and> o_id opt3 = o_id (example_optimizer [[Some (cpu_grad [[Fin 2048]])]])"
  by (simp add: eval_defs stage_of_def)

section \<open>Growth after overflow-free iterations\<close>

lemma extends_refl: "extends h h"
  by (simp add: extends_def)

lemma extends_trans: "extends h h1 \<Longrightarrow> extends h1 h2 \<Longrightarrow> extends h h2"
  by (auto simp add: extends_def)

lemma extends_new_float: "extends h (snd (new_float dev v h))"
  by (simp add: extends_def new_float_def)

lemma new_flags_props:
  assumes "new_flags fs h = (flags, h')"
  shows "extends h h' \<and> map snd flags = [fnext h ..< fnext h']
         \<and> map (\<lambda>p. item h' (snd p)) flags = map snd fs"
  using assms
proof (induction fs arbitrary: h flags h')
  case Nil
  then show ?case by (simp add: extends_refl)
next
  case (Cons f fs)
  obtain dev v where f: "f = (dev, v)" by (cases f)
  let ?h1 = "snd (new_float dev v h)"
  obtain r h2 where r: "new_flags fs ?h1 = (r, h2)" by (cases "new_flags fs ?h1")
  from Cons.prems f r have flags: "flags = (dev, fnext h) # r" and h': "h' = h2"
    by (simp_all add: new_float_def split_beta)
  from Cons.IH [OF r] have e: "extends ?h1 h2" and adr: "map snd r = [fnext ?h1 ..< fnext h2]"
    and it: "map (\<lambda>p. item h2 (snd p)) r = map snd fs"
    by blast+
  have n1: "fnext ?h1 = Suc (fnext h)" by (simp add: new_float_def)
  from e n1 have le: "Suc (fnext h) \<le> fnext h2" by (simp add: extends_def)
  from e n1 have "floats h2 (fnext h) = floats ?h1 (fnext h)"
    by (simp add: extends_def)
  then have i0: "item h2 (fnext h) = v"
    by (simp add: item_def new_float_def)
  have "extends h h2"
    using extends_trans [OF extends_new_float e] .
  moreover have "map snd flags = [fnext h ..< fnext h2]"
    using flags adr n1 le by (simp add: upt_conv_Cons)
  moreover have "map (\<lambda>p. item h2 (snd p)) flags = map snd (f # fs)"
    using flags it i0 f by simp
  ultimately show ?case using h' by blast
qed


lemma extends_item: "extends h h' \<Longrightarrow> a < fnext h \<Longrightarrow> item h' a = item h a"
  by (simp add: extends_def item_def)

lemma extends_items:
  assumes "extends h h'" and "\<forall>a\<in>set as. a < fnext h"
  shows "map (item h') as = map (item h) as"
  using assms by (induction as) (simp_all add: extends_def item_def)

lemma extends_device: "extends h h' \<Longrightarrow> a < fnext h \<Longrightarrow> device_of h' a = device_of h a"
  by (simp add: extends_def device_of_def)

lemma simulate_states_props:
  assumes "simulate_states checks h = (d, h')"
  shows "extends h h'
         \<and> concat (map (\<lambda>(k, st). map snd (found_inf_per_device st)) d) = [fnext h ..< fnext h']
         \<and> map (item h') [fnext h ..< fnext h'] = flag_values checks"
  using assms
proof (induction checks arbitrary: h d h')
  case Nil
  then show ?case by (simp add: extends_refl flag_values_def)
next
  case (Cons c checks)
  obtain k fs where c: "c = (k, fs)" by (cases c)
  obtain flags h1 where nf: "new_flags fs h = (flags, h1)" by (cases "new_flags fs h")
  obtain d1 h2 where ss: "simulate_states checks h1 = (d1, h2)"
    by (cases "simulate_states checks h1")
  from Cons.prems c nf ss
  have d: "d = (k, \<lparr>stage = Own STEPPED, found_inf_per_device = flags\<rparr>) # d1" and h': "h' = h2"
    by simp_all
  from new_flags_props [OF nf]
  have e1: "extends h h1" and a1: "map snd flags = [fnext h ..< fnext h1]"
    and i1: "map (\<lambda>p. item h1 (snd p)) flags = map snd fs"
    by blast+
  from Cons.IH [OF ss]
  have e2: "extends h1 h2"
    and a2: "concat (map (\<lambda>(k, st). map snd (found_inf_per_device st)) d1) = [fnext h1 ..< fnext h2]"
    and i2: "map (item h2) [fnext h1 ..< fnext h2] = flag_values checks"
    by blast+
  from e1 e2 have le: "fnext h \<le> fnext h1" "fnext h1 \<le> fnext h2"
    by (simp_all add: extends_def)
  have split: "[fnext h ..< fnext h2] = [fnext h ..< fnext h1] @ [fnext h1 ..< fnext h2]"
    using upt_add_eq_append [OF le(1), of "fnext h2 - fnext h1"] le(2) by simp
  have "map (item h2) [fnext h ..< fnext h1] = map (item h1) [fnext h ..< fnext h1]"
    by (rule extends_items [OF e2]) simp
  also have "\<dots> = map snd fs"
    by (simp add: a1 [symmetric] i1 comp_def)
  finally have i3: "map (item h2) [fnext h ..< fnext h1] = map snd fs" .
  have "extends h h2"
    using extends_trans [OF e1 e2] .
  moreover have "concat (map (\<lambda>(k, st). map snd (found_inf_per_device st)) d)
                   = [fnext h ..< fnext h2]"
    using d a1 a2 split by simp
  moreover have "map (item h2) [fnext h ..< fnext h2] = flag_values (c # checks)"
    using split i3 i2 c by (simp add: flag_values_def)
  ultimately show ?case using h' by blast
qed


lemma to_device_props:
  assumes "to_device dev a h = (b, h1)" and "a < fnext h"
  shows "extends h h1 \<and> b < fnext h1 \<and> item h1 b = item h a \<and> (b = a \<or> b = fnext h \<and> fnext h1 = Suc (fnext h)) \<and> (b = a \<longrightarrow> h1 = h)"
  using assms
  by (auto simp add: to_device_def new_float_def extends_def item_def split: if_splits)

lemma gather_found_infs_props:
  assumes "gather_found_infs dev as h = (bs, h')" and "distinct as" and "\<forall>a\<in>set as. a < fnext h"
  shows "extends h h' \<and> distinct bs \<and> length bs = length as
         \<and> map (item h') bs = map (item h) as
         \<and> set bs \<subseteq> set as \<union> {fnext h ..< fnext h'}"
  using assms
proof (induction as arbitrary: h bs h')
  case Nil
  then show ?case by (simp add: extends_refl)
next
  case (Cons a as)
  obtain b h1 where td: "to_device dev a h = (b, h1)" by (cases "to_device dev a h")
  obtain bs1 h2 where g: "gather_found_infs dev as h1 = (bs1, h2)"
    by (cases "gather_found_infs dev as h1")
  from Cons.prems(1) td g have bs: "bs = b # bs1" and h': "h' = h2"
    by simp_all
  from Cons.prems have a: "a < fnext h" and na: "a \<notin> set as" and das: "distinct as"
    and bound: "\<forall>x\<in>set as. x < fnext h"
    by simp_all
  from to_device_props [OF td a]
  have e1: "extends h h1" and b1: "b < fnext h1" and ib: "item h1 b = item h a"
    and bcase: "b = a \<or> b = fnext h \<and> fnext h1 = Suc (fnext h)"
    by blast+
  from e1 have le1: "fnext h \<le> fnext h1" by (simp add: extends_def)
  with bound have bound1: "\<forall>x\<in>set as. x < fnext h1" by auto
  from Cons.IH [OF g das bound1]
  have e2: "extends h1 h2" and d1: "distinct bs1" and l1: "length bs1 = length as"
    and i1: "map (item h2) bs1 = map (item h1) as"
    and s1: "set bs1 \<subseteq> set as \<union> {fnext h1 ..< fnext h2}"
    by blast+
  from e2 have le2: "fnext h1 \<le> fnext h2" by (simp add: extends_def)
  have "b \<notin> set bs1"
  proof
    assume "b \<in> set bs1"
    with s1 have "b \<in> set as \<or> fnext h1 \<le> b" by auto
    with bcase na bound a le1 show False by auto
  qed
  with d1 have "distinct (b # bs1)" by simp
  moreover have "map (item h2) (b # bs1) = map (item h) (a # as)"
  proof -
    have "item h2 b = item h a"
      using extends_item [OF e2 b1] ib by simp
    moreover have "map (item h1) as = map (item h) as"
      using extends_items [OF e1 bound] .
    ultimately show ?thesis using i1 by simp
  qed
  moreover have "set (b # bs1) \<subseteq> set (a # as) \<union> {fnext h ..< fnext h2}"
    using s1 bcase le1 le2 b1 by auto
  moreover have "extends h h2"
    using extends_trans [OF e1 e2] .
  ultimately show ?case using bs h' l1 by simp
qed

lemma accumulate_props:
  assumes "c \<notin> set bs"
  shows "accumulate c bs h =
           h\<lparr>floats := (floats h)(c := (device_of h c, foldl fadd (item h c) (map (item h) bs)))\<rparr>"
  using assms
proof (induction bs arbitrary: h)
  case Nil
  then show ?case by (simp add: device_of_def item_def)
next
  case (Cons b bs)
  then have nb: "c \<noteq> b" and nbs: "c \<notin> set bs" by auto
  let ?h1 = "iadd c b h"
  have same: "map (item ?h1) bs = map (item h) bs"
    using nbs by (auto simp add: iadd_def fill_float_def item_def)
  have "accumulate c (b # bs) h = accumulate c bs ?h1" by simp
  also have "\<dots> = ?h1\<lparr>floats := (floats ?h1)
      (c := (device_of ?h1 c, foldl fadd (item ?h1 c) (map (item ?h1) bs)))\<rparr>"
    using Cons.IH [OF nbs] .
  also have "\<dots> = h\<lparr>floats := (floats h)
      (c := (device_of h c, foldl fadd (item h c) (map (item h) (b # bs))))\<rparr>"
    unfolding same by (simp add: iadd_def fill_float_def item_def device_of_def)
  finally show ?case .
qed


lemma wrap32_id: "- 2147483648 \<le> x \<Longrightarrow> x \<le> 2147483647 \<Longrightarrow> wrap32 x = x"
  by (simp add: wrap32_def)

lemma cpu_kernel_clean:
  assumes sc: "s_scale self = Some sc" and tr: "s_growth_tracker self \<noteq> None"
    and zero: "item h c = Fin 0"
    and lo: "- 2147483648 \<le> tracker_count self h" and hi: "tracker_count self h < 2147483647"
  shows "\<exists>self' h'. amp_update_scale_cpu c self h = Inr (self', h')
           \<and> self' = self\<lparr>s_growth_tracker := s_growth_tracker self'\<rparr>
           \<and> s_growth_tracker self' \<noteq> None
           \<and> fnext h' = fnext h \<and> device_of h' sc = device_of h sc
           \<and> (if tracker_count self h + 1 = s_growth_interval self
                then item h' sc = fmul (item h sc) (s_growth_factor self)
                     \<and> tracker_count self' h' = 0
                else item h' sc = item h sc
                     \<and> tracker_count self' h' = tracker_count self h + 1)"
proof -
  from tr obtain t where "s_growth_tracker self = Some t" by auto
  then show ?thesis
  proof (cases t)
    case (TrackerTensor a)
    with \<open>s_growth_tracker self = Some t\<close> have t: "s_growth_tracker self = Some (TrackerTensor a)"
      by simp
    with lo hi have w: "wrap32 (snd (ints h a) + 1) = snd (ints h a) + 1"
      by (intro wrap32_id) (simp_all add: tracker_count_def)
    from sc t zero w show ?thesis
      by (simp add: amp_update_scale_cpu_def tracker_count_def new_int_def imul_def
            fill_float_def item_def device_of_def)
  next
    case (TrackerInt n)
    with \<open>s_growth_tracker self = Some t\<close> have t: "s_growth_tracker self = Some (TrackerInt n)"
      by simp
    from sc t zero show ?thesis
      by (simp add: amp_update_scale_cpu_def tracker_count_def imul_def
            fill_float_def item_def device_of_def)
  qed
qed

lemma gpu_kernel_clean:
  assumes t: "tr = Some (TrackerTensor a)" and zero: "item h c = Fin 0"
    and lo: "- 2147483648 \<le> snd (ints h a)" and hi: "snd (ints h a) < 2147483647"
  shows "\<exists>h'. torch_amp_update_scale sc tr c gf bf gi h = Inr h'
           \<and> fnext h' = fnext h \<and> device_of h' sc = device_of h sc
           \<and> (if snd (ints h a) + 1 = gi
                then item h' sc = fmul (item h sc) gf \<and> snd (ints h' a) = 0
                else item h' sc = item h sc \<and> snd (ints h' a) = snd (ints h a) + 1)"
proof -
  from lo hi have w: "wrap32 (snd (ints h a) + 1) = snd (ints h a) + 1"
    by (intro wrap32_id) simp_all
  show ?thesis
  proof (cases "snd (ints h a) + 1 = gi")
    case True
    with t zero w show ?thesis
      by (simp add: torch_amp_update_scale_def truthy_def fill_int_def imul_def
            fill_float_def item_def device_of_def)
  next
    case False
    with t zero w show ?thesis
      by (simp add: torch_amp_update_scale_def truthy_def fill_int_def imul_def
            fill_float_def item_def device_of_def)
  qed
qed


lemma update_combines_flags:
  assumes en: "s_enabled self" and ok: "buffers_ok self h" and sc: "s_scale self = Some sc"
    and rf: "recorded_flags self = a # as" and dis: "distinct (a # as)"
    and bound: "\<forall>x\<in>set (a # as). x < fnext h" and nsc: "sc \<notin> set (a # as)"
  shows "\<exists>c h2.
           update None self h =
             (case (if device_of h sc = CPU then amp_update_scale_cpu c self h2
                    else (case torch_amp_update_scale sc (s_growth_tracker self) c
                                  (s_growth_factor self) (s_backoff_factor self)
                                  (s_growth_interval self) h2 of
                            Inl e \<Rightarrow> Inl e
                          | Inr h3 \<Rightarrow> Inr (self, h3))) of
                Inl e \<Rightarrow> Inl e
              | Inr (self1, h3) \<Rightarrow> Inr (self1\<lparr>s_per_optimizer_states := []\<rparr>, h3))
           \<and> item h2 c = foldl fadd (item h a) (map (item h) as)
           \<and> item h2 sc = item h sc \<and> device_of h2 sc = device_of h sc
           \<and> fnext h \<le> fnext h2 \<and> ints h2 = ints h"
proof -
  let ?dev = "device_of h sc"
  from ok sc have scb: "sc < fnext h" and tr: "s_growth_tracker self \<noteq> None"
    by (auto simp add: buffers_ok_def split: option.splits)
  obtain bs0 h1 where g: "gather_found_infs ?dev (a # as) h = (bs0, h1)"
    by (cases "gather_found_infs ?dev (a # as) h")
  from gather_found_infs_props [OF g dis bound]
  have e1: "extends h h1" and d0: "distinct bs0" and l0: "length bs0 = length (a # as)"
    and i0: "map (item h1) bs0 = map (item h) (a # as)"
    and s0: "set bs0 \<subseteq> set (a # as) \<union> {fnext h ..< fnext h1}"
    by blast+
  from l0 obtain c bs where bs0: "bs0 = c # bs"
    by (cases bs0) simp_all
  from d0 bs0 have cbs: "c \<notin> set bs" by simp
  from s0 bs0 nsc scb have csc: "c \<noteq> sc" by auto
  let ?h2 = "accumulate c bs h1"
  have h2: "?h2 = h1\<lparr>floats := (floats h1)
      (c := (device_of h1 c, foldl fadd (item h a) (map (item h) as)))\<rparr>"
    using accumulate_props [OF cbs, of h1] i0 bs0 by simp
  have sum: "item ?h2 c = foldl fadd (item h a) (map (item h) as)"
    by (simp add: h2 item_def)
  have isc: "item ?h2 sc = item h sc"
    using csc extends_item [OF e1 scb] by (simp add: h2 item_def)
  have dsc: "device_of ?h2 sc = ?dev"
    using csc extends_device [OF e1 scb] by (simp add: h2 device_of_def)
  have fn: "fnext h \<le> fnext ?h2"
    using e1 by (simp add: h2 extends_def)
  have ints2: "ints ?h2 = ints h"
    using e1 by (simp add: h2 extends_def)
  from tr obtain t where t: "s_growth_tracker self = Some t" by auto
  have upd: "update None self h =
      (case (if ?dev = CPU then amp_update_scale_cpu c self ?h2
             else (case torch_amp_update_scale sc (s_growth_tracker self) c
                           (s_growth_factor self) (s_backoff_factor self)
                           (s_growth_interval self) ?h2 of
                     Inl e \<Rightarrow> Inl e
                   | Inr h3 \<Rightarrow> Inr (self, h3))) of
         Inl e \<Rightarrow> Inl e
       | Inr (self1, h3) \<Rightarrow> Inr (self1\<lparr>s_per_optimizer_states := []\<rparr>, h3))"
    using en sc t rf g bs0
    by (simp add: update_def check_scale_growth_tracker_def)
  from upd sum isc dsc fn ints2 show ?thesis
    by blast
qed

lemma update_clean:
  assumes en: "s_enabled self" and ok: "buffers_ok self h" and sc: "s_scale self = Some sc"
    and rf: "recorded_flags self = a # as" and dis: "distinct (a # as)"
    and bound: "\<forall>x\<in>set (a # as). x < fnext h" and nsc: "sc \<notin> set (a # as)"
    and comb: "foldl fadd (item h a) (map (item h) as) = Fin 0"
    and lo: "- 2147483648 \<le> tracker_count self h" and hi: "tracker_count self h < 2147483647"
  shows "\<exists>self' h'. update None self h = Inr (self', h')
           \<and> self' = self\<lparr>s_growth_tracker := s_growth_tracker self',
                           s_per_optimizer_states := []\<rparr>
           \<and> buffers_ok self' h'
           \<and> (if tracker_count self h + 1 = s_growth_interval self
                then item h' sc = fmul (item h sc) (s_growth_factor self)
                     \<and> tracker_count self' h' = 0
                else item h' sc = item h sc
                     \<and> tracker_count self' h' = tracker_count self h + 1)"
proof -
  let ?dev = "device_of h sc"
  from ok sc have scb: "sc < fnext h" and tr: "s_growth_tracker self \<noteq> None"
    by (auto simp add: buffers_ok_def split: option.splits)
  from update_combines_flags [OF en ok sc rf dis bound nsc] comb
  obtain c h2 where
    upd: "update None self h =
      (case (if ?dev = CPU then amp_update_scale_cpu c self h2
             else (case torch_amp_update_scale sc (s_growth_tracker self) c
                           (s_growth_factor self) (s_backoff_factor self)
                           (s_growth_interval self) h2 of
                     Inl e \<Rightarrow> Inl e
                   | Inr h3 \<Rightarrow> Inr (self, h3))) of
         Inl e \<Rightarrow> Inl e
       | Inr (self1, h3) \<Rightarrow> Inr (self1\<lparr>s_per_optimizer_states := []\<rparr>, h3))"
    and zero: "item h2 c = Fin 0" and isc: "item h2 sc = item h sc"
    and dsc: "device_of h2 sc = ?dev" and fn: "fnext h \<le> fnext h2"
    and ints2: "ints h2 = ints h"
    by auto
  have tc: "tracker_count self h2 = tracker_count self h"
    by (simp add: tracker_count_def ints2 split: option.splits tracker.splits)
  from tr obtain t where t: "s_growth_tracker self = Some t" by auto
  show ?thesis
  proof (cases "?dev = CPU")
    case True
    from cpu_kernel_clean [OF sc tr zero] lo hi tc
    obtain self1 h3 where k: "amp_update_scale_cpu c self h2 = Inr (self1, h3)"
      and s1: "self1 = self\<lparr>s_growth_tracker := s_growth_tracker self1\<rparr>"
      and t1: "s_growth_tracker self1 \<noteq> None"
      and f3: "fnext h3 = fnext h2" and d3: "device_of h3 sc = device_of h2 sc"
      and r3: "if tracker_count self h + 1 = s_growth_interval self
               then item h3 sc = fmul (item h sc) (s_growth_factor self)
                    \<and> tracker_count self1 h3 = 0
               else item h3 sc = item h sc
                    \<and> tracker_count self1 h3 = tracker_count self h + 1"
      unfolding tc isc by auto
    let ?self' = "self1\<lparr>s_per_optimizer_states := []\<rparr>"
    have u: "update None self h = Inr (?self', h3)"
      using upd True k by simp
    have shape: "?self' = self\<lparr>s_growth_tracker := s_growth_tracker ?self',
                                 s_per_optimizer_states := []\<rparr>"
      by (subst s1) simp
    have sc1: "s_scale self1 = Some sc"
      by (subst s1) (simp add: sc)
    have bok: "buffers_ok ?self' h3"
      using sc1 t1 scb fn f3 d3 dsc True
      by (auto simp add: buffers_ok_def split: option.splits tracker.splits)
    have tcs: "tracker_count ?self' h3 = tracker_count self1 h3"
      by (simp add: tracker_count_def split: option.splits)
    from u shape bok r3 tcs show ?thesis
      by (intro exI [of _ ?self'] exI [of _ h3]) (simp split: if_splits)
  next
    case False
    with ok sc t obtain ta where ta: "t = TrackerTensor ta"
      by (cases t) (auto simp add: buffers_ok_def)
    from t ta have tt: "s_growth_tracker self = Some (TrackerTensor ta)" by simp
    from lo hi tt ints2 have lo2: "- 2147483648 \<le> snd (ints h2 ta)"
      and hi2: "snd (ints h2 ta) < 2147483647"
      by (simp_all add: tracker_count_def)
    from gpu_kernel_clean [OF tt zero lo2 hi2, of sc "s_growth_factor self"
           "s_backoff_factor self" "s_growth_interval self"]
    obtain h3 where k: "torch_amp_update_scale sc (s_growth_tracker self) c
                           (s_growth_factor self) (s_backoff_factor self)
                           (s_growth_interval self) h2 = Inr h3"
      and f3: "fnext h3 = fnext h2"
      and r3: "if snd (ints h2 ta) + 1 = s_growth_interval self
               then item h3 sc = fmul (item h2 sc) (s_growth_factor self) \<and> snd (ints h3 ta) = 0
               else item h3 sc = item h2 sc \<and> snd (ints h3 ta) = snd (ints h2 ta) + 1"
      by blast
    let ?self' = "self\<lparr>s_per_optimizer_states := []\<rparr>"
    have u: "update None self h = Inr (?self', h3)"
      using upd False k by simp
    have shape: "?self' = self\<lparr>s_growth_tracker := s_growth_tracker ?self',
                                 s_per_optimizer_states := []\<rparr>"
      by simp
    have bok: "buffers_ok ?self' h3"
      using sc tt scb fn f3 by (simp add: buffers_ok_def)
    have tc0: "tracker_count self h = snd (ints h2 ta)"
      using tt ints2 by (simp add: tracker_count_def)
    have tc3: "tracker_count ?self' h3 = snd (ints h3 ta)"
      using tt by (simp add: tracker_count_def split: option.splits)
    from u shape bok r3 show ?thesis
      unfolding tc0 tc3 [symmetric] isc
      by (intro exI [of _ ?self'] exI [of _ h3]) (simp split: if_splits)
  qed
qed

lemma simulated_update_clean:
  assumes en: "s_enabled self" and ok: "buffers_ok self h" and sc: "s_scale self = Some sc"
    and clean: "overflow_free checks"
    and lo: "- 2147483648 \<le> tracker_count self h" and hi: "tracker_count self h < 2147483647"
  shows "\<exists>self' h'. (case simulate_checks checks self h of (self1, h1) \<Rightarrow> update None self1 h1)
                       = Inr (self', h')
           \<and> self' = self\<lparr>s_growth_tracker := s_growth_tracker self',
                           s_per_optimizer_states := []\<rparr>
           \<and> buffers_ok self' h'
           \<and> (if tracker_count self h + 1 = s_growth_interval self
                then item h' sc = fmul (item h sc) (s_growth_factor self)
                     \<and> tracker_count self' h' = 0
                else item h' sc = item h sc
                     \<and> tracker_count self' h' = tracker_count self h + 1)"
proof -
  obtain d h1 where ss: "simulate_states checks h = (d, h1)"
    by (cases "simulate_states checks h")
  let ?self1 = "self\<lparr>s_per_optimizer_states := d\<rparr>"
  have sim: "simulate_checks checks self h = (?self1, h1)"
    by (simp add: simulate_checks_def ss)
  from simulate_states_props [OF ss]
  have e: "extends h h1"
    and addrs: "recorded_flags ?self1 = [fnext h ..< fnext h1]"
    and vals: "map (item h1) [fnext h ..< fnext h1] = flag_values checks"
    by (simp_all add: recorded_flags_def)
  from clean obtain v vs where fv: "flag_values checks = v # vs"
    and zero: "foldl fadd v vs = Fin 0"
    by (auto simp add: overflow_free_def split: list.splits)
  from vals fv obtain a as where upt: "[fnext h ..< fnext h1] = a # as"
    by (cases "[fnext h ..< fnext h1]") auto
  from ok sc have scb: "sc < fnext h"
    by (auto simp add: buffers_ok_def)
  have mem: "\<forall>x\<in>set (a # as). fnext h \<le> x \<and> x < fnext h1"
    unfolding upt [symmetric] by simp
  have ok1: "buffers_ok ?self1 h1"
    using ok e scb sc extends_device [OF e scb]
    by (auto simp add: buffers_ok_def extends_def split: option.splits tracker.splits)
  have tc1: "tracker_count ?self1 h1 = tracker_count self h"
    using e by (simp add: tracker_count_def extends_def split: option.splits tracker.splits)
  have rf: "recorded_flags ?self1 = a # as"
    using addrs upt by simp
  have dis: "distinct (a # as)"
    unfolding upt [symmetric] by simp
  have bound: "\<forall>x\<in>set (a # as). x < fnext h1"
    using mem by blast
  have nsc: "sc \<notin> set (a # as)"
    using mem scb by auto
  have comb: "foldl fadd (item h1 a) (map (item h1) as) = Fin 0"
    using vals fv zero unfolding upt by simp
  have gi: "s_growth_interval ?self1 = s_growth_interval self"
    and gf: "s_growth_factor ?self1 = s_growth_factor self"
    by simp_all
  from update_clean [of ?self1 h1 sc a as, OF _ ok1 _ rf dis bound nsc comb] en sc lo hi
  obtain self' h' where u: "update None ?self1 h1 = Inr (self', h')"
    and shape: "self' = ?self1\<lparr>s_growth_tracker := s_growth_tracker self',
                                 s_per_optimizer_states := []\<rparr>"
    and ok': "buffers_ok self' h'"
    and res: "if tracker_count ?self1 h1 + 1 = s_growth_interval ?self1
              then item h' sc = fmul (item h1 sc) (s_growth_factor ?self1)
                   \<and> tracker_count self' h' = 0
              else item h' sc = item h1 sc
                   \<and> tracker_count self' h' = tracker_count ?self1 h1 + 1"
    unfolding tc1 by auto
  have shape': "self' = self\<lparr>s_growth_tracker := s_growth_tracker self',
                                s_per_optimizer_states := []\<rparr>"
    by (subst shape) simp
  from u sim shape' ok' res show ?thesis
    unfolding tc1 gi gf extends_item [OF e scb]
    by (intro exI [of _ self'] exI [of _ h']) (simp split: if_splits)
qed

lemma iterations_clean:
  assumes "s_enabled self" and "buffers_ok self h" and "s_scale self = Some sc"
    and "\<forall>c\<in>set cs. overflow_free c"
    and "- 2147483648 \<le> tracker_count self h" and "s_growth_interval self \<le> 2147483647"
  shows "(tracker_count self h + int (length cs) < s_growth_interval self \<longrightarrow>
            (\<exists>self' h'. iterations cs self h = Inr (self', h')
               \<and> s_enabled self' \<and> s_scale self' = Some sc
               \<and> item h' sc = item h sc
               \<and> tracker_count self' h' = tracker_count self h + int (length cs)))
       \<and> (cs \<noteq> [] \<and> tracker_count self h + int (length cs) = s_growth_interval self \<longrightarrow>
            (\<exists>self' h'. iterations cs self h = Inr (self', h')
               \<and> s_enabled self' \<and> s_scale self' = Some sc
               \<and> item h' sc = fmul (item h sc) (s_growth_factor self)
               \<and> tracker_count self' h' = 0))"
  using assms
proof (induction cs arbitrary: self h)
  case Nil
  then show ?case by simp
next
  case (Cons c cs)
  let ?k = "tracker_count self h"
  let ?gi = "s_growth_interval self"
  show ?case
  proof (cases "?k + int (length (c # cs)) \<le> ?gi")
    case False
    then show ?thesis by simp
  next
    case True
    then have hi: "?k < 2147483647"
      using Cons.prems(6) by simp
    from Cons.prems(4) have clean: "overflow_free c" and rest: "\<forall>x\<in>set cs. overflow_free x"
      by simp_all
    from simulated_update_clean [OF Cons.prems(1,2,3) clean Cons.prems(5) hi]
    obtain self1 h1 where
      u: "(case simulate_checks c self h of (s, g) \<Rightarrow> update None s g) = Inr (self1, h1)"
      and shape: "self1 = self\<lparr>s_growth_tracker := s_growth_tracker self1,
                                 s_per_optimizer_states := []\<rparr>"
      and ok1: "buffers_ok self1 h1"
      and res: "if ?k + 1 = ?gi
                then item h1 sc = fmul (item h sc) (s_growth_factor self)
                     \<and> tracker_count self1 h1 = 0
                else item h1 sc = item h sc \<and> tracker_count self1 h1 = ?k + 1"
      by blast
    have it: "iterations (c # cs) self h = iterations cs self1 h1"
      using u by (simp add: split_beta)
    have en1: "s_enabled self1" by (subst shape) (simp add: Cons.prems(1))
    have sc1: "s_scale self1 = Some sc" by (subst shape) (simp add: Cons.prems(3))
    have gi1: "s_growth_interval self1 = ?gi" by (subst shape) simp
    have gf1: "s_growth_factor self1 = s_growth_factor self" by (subst shape) simp
    show ?thesis
    proof (cases "?k + 1 = ?gi")
      case grow: True
      with True have "cs = []" by (cases cs) simp_all
      with grow res it en1 sc1 show ?thesis by simp
    next
      case nogrow: False
      with res have i1: "item h1 sc = item h sc" and t1: "tracker_count self1 h1 = ?k + 1"
        by simp_all
      have lo1: "- 2147483648 \<le> tracker_count self1 h1"
        using t1 Cons.prems(5) by simp
      have bound1: "s_growth_interval self1 \<le> 2147483647"
        using gi1 Cons.prems(6) by simp
      from Cons.IH [OF en1 ok1 sc1 rest lo1 bound1]
      have IH1: "tracker_count self1 h1 + int (length cs) < s_growth_interval self1 \<longrightarrow>
            (\<exists>self' h'. iterations cs self1 h1 = Inr (self', h')
               \<and> s_enabled self' \<and> s_scale self' = Some sc
               \<and> item h' sc = item h1 sc
               \<and> tracker_count self' h' = tracker_count self1 h1 + int (length cs))"
        and IH2: "cs \<noteq> [] \<and> tracker_count self1 h1 + int (length cs) = s_growth_interval self1 \<longrightarrow>
            (\<exists>self' h'. iterations cs self1 h1 = Inr (self', h')
               \<and> s_enabled self' \<and> s_scale self' = Some sc
               \<and> item h' sc = fmul (item h1 sc) (s_growth_factor self1)
               \<and> tracker_count self' h' = 0)"
        by blast+
      have ne: "?k + int (length (c # cs)) = ?gi \<Longrightarrow> cs \<noteq> []"
        using nogrow by auto
      from IH1 IH2 ne show ?thesis
        unfolding it t1 i1 gi1 gf1 by (auto simp add: algebra_simps)
    qed
  qed
qed

text \<open>
  C4. On an enabled instance with materialized buffers and a growth tracker at 0, a run of
  \<open>N\<close> consecutive overflow-free iterations, each ending in \<^verbatim>\<open>update()\<close>, returns; while
  \<open>N\<close> is below the growth interval the scale is unchanged and the tracker stands at \<open>N\<close>
  (one more per iteration); when \<open>N\<close> reaches the growth interval the scale has been
  multiplied once by the growth factor and the tracker is back at 0. The growth interval
  fits the int32 tracker buffer.
\<close>

theorem growth_after_clean_iterations:
  assumes "s_enabled self" and "buffers_ok self h" and "tracker_count self h = 0"
    and "s_growth_interval self \<le> 2147483647" and "\<forall>c\<in>set cs. overflow_free c"
  shows "(int (length cs) < s_growth_interval self \<longrightarrow>
            (\<exists>self' h'. iterations cs self h = Inr (self', h')
               \<and> get_scale self' h' = get_scale self h
               \<and> tracker_count self' h' = int (length cs)))
       \<and> (cs \<noteq> [] \<and> int (length cs) = s_growth_interval self \<longrightarrow>
            (\<exists>self' h'. iterations cs self h = Inr (self', h')
               \<and> get_scale self' h' = fmul (get_scale self h) (s_growth_factor self)
               \<and> tracker_count self' h' = 0))"
proof -
  from assms(2) obtain sc where sc: "s_scale self = Some sc"
    by (auto simp add: buffers_ok_def split: option.splits)
  have gs: "get_scale self h = item h sc"
    using assms(1) sc by (simp add: get_scale_def)
  have gs': "get_scale self' h' = item h' sc" if "s_enabled self'" and "s_scale self' = Some sc"
    for self' h'
    using that by (simp add: get_scale_def)
  from iterations_clean [OF assms(1,2) sc assms(5) _ assms(4)] assms(3)
  have less: "int (length cs) < s_growth_interval self \<longrightarrow>
            (\<exists>self' h'. iterations cs self h = Inr (self', h')
               \<and> s_enabled self' \<and> s_scale self' = Some sc
               \<and> item h' sc = item h sc
               \<and> tracker_count self' h' = int (length cs))"
    and eq: "cs \<noteq> [] \<and> int (length cs) = s_growth_interval self \<longrightarrow>
            (\<exists>self' h'. iterations cs self h = Inr (self', h')
               \<and> s_enabled self' \<and> s_scale self' = Some sc
               \<and> item h' sc = fmul (item h sc) (s_growth_factor self)
               \<and> tracker_count self' h' = 0)"
    by simp_all
  show ?thesis
  proof (intro conjI impI)
    assume "int (length cs) < s_growth_interval self"
    with less obtain self' h' where "iterations cs self h = Inr (self', h')"
      and "s_enabled self'" and "s_scale self' = Some sc" and "item h' sc = item h sc"
      and "tracker_count self' h' = int (length cs)"
      by blast
    then show "\<exists>self' h'. iterations cs self h = Inr (self', h')
               \<and> get_scale self' h' = get_scale self h
               \<and> tracker_count self' h' = int (length cs)"
      using gs gs' [of self' h'] by auto
  next
    assume "cs \<noteq> [] \<and> int (length cs) = s_growth_interval self"
    with eq obtain self' h' where "iterations cs self h = Inr (self', h')"
      and "s_enabled self'" and "s_scale self' = Some sc"
      and "item h' sc = fmul (item h sc) (s_growth_factor self)"
      and "tracker_count self' h' = 0"
      by blast
    then show "\<exists>self' h'. iterations cs self h = Inr (self', h')
               \<and> get_scale self' h' = fmul (get_scale self h) (s_growth_factor self)
               \<and> tracker_count self' h' = 0"
      using gs gs' [of self' h'] by auto
  qed
qed


theorem growth_after_clean_iterations_witness:
  "s_enabled cpu_scaler \<and> buffers_ok cpu_scaler cpu_store
   \<and> tracker_count cpu_scaler cpu_store = 0 \<and> s_growth_interval cpu_scaler = 3
   \<and> overflow_free clean_checks
   \<and> (\<exists>self' h'. iterations [clean_checks, clean_checks] cpu_scaler cpu_store = Inr (self', h')
         \<and> get_scale self' h' = Fin 1024 \<and> tracker_count self' h' = 2)
   \<and> (\<exists>self' h'. iterations [clean_checks, clean_checks, clean_checks] cpu_scaler cpu_store
           = Inr (self', h')
         \<and> get_scale self' h' = Fin 2048 \<and> tracker_count self' h' = 0)"
  using growth_after_clean_iterations [of cpu_scaler cpu_store "[clean_checks, clean_checks]"]
        growth_after_clean_iterations
          [of cpu_scaler cpu_store "[clean_checks, clean_checks, clean_checks]"]
  by (simp add: cpu_scaler_def cpu_store_def buffers_ok_def tracker_count_def overflow_free_def
        flag_values_def clean_checks_def get_scale_def item_def)

section \<open>The CPU paths\<close>

text \<open>
  The example instance is the one a training loop has after constructing the scaler and
  scaling a loss that lives on the CPU.
\<close>

lemmas update_eval_defs = update_def recorded_flags_def to_device_def iadd_def
  amp_update_scale_cpu_def imul_def wrap32_def get_scale_def

lemma cpu_scaler_reached:
  "init (Fin 1024) (Fin 2) (Fin (1/2)) 3 True False = Inr (cpu_scaler\<lparr>s_scale := None, s_growth_tracker := None\<rparr>)
   \<and> scale (Tensor CPU [Fin 1]) (cpu_scaler\<lparr>s_scale := None, s_growth_tracker := None\<rparr>) empty_store
       = Inr (Tensor CPU [Fin 1024], cpu_scaler, cpu_store)"
  by (simp add: init_def scale_def lazy_init_scale_growth_tracker_def new_float_def new_int_def
        empty_store_def cpu_scaler_def cpu_store_def device_ok_def item_def fun_eq_iff)

text \<open>
  Off the CPU, where the library kernel updates the scale, a non-zero combined flag
  multiplies the scale by the backoff factor and resets the growth tracker.
\<close>

lemma update_backs_off_off_cpu:
  assumes en: "s_enabled self" and ok: "buffers_ok self h" and sc: "s_scale self = Some sc"
    and rf: "recorded_flags self = a # as" and dis: "distinct (a # as)"
    and bound: "\<forall>x\<in>set (a # as). x < fnext h" and nsc: "sc \<notin> set (a # as)"
    and comb: "foldl fadd (item h a) (map (item h) as) \<noteq> Fin 0"
    and dev: "device_of h sc \<noteq> CPU"
  shows "\<exists>self' h'. update None self h = Inr (self', h')
           \<and> item h' sc = fmul (item h sc) (s_backoff_factor self)
           \<and> tracker_count self' h' = 0"
proof -
  from ok sc dev obtain ta where tt: "s_growth_tracker self = Some (TrackerTensor ta)"
    by (auto simp add: buffers_ok_def split: option.splits tracker.splits)
  from update_combines_flags [OF en ok sc rf dis bound nsc] comb dev tt
  obtain c h2 where
    upd: "update None self h =
      (case (case torch_amp_update_scale sc (Some (TrackerTensor ta)) c
                           (s_growth_factor self) (s_backoff_factor self)
                           (s_growth_interval self) h2 of
                     Inl e \<Rightarrow> Inl e
                   | Inr h3 \<Rightarrow> Inr (self, h3)) of
         Inl e \<Rightarrow> Inl e
       | Inr (self1, h3) \<Rightarrow> Inr (self1\<lparr>s_per_optimizer_states := []\<rparr>, h3))"
    and nz: "item h2 c \<noteq> Fin 0" and isc: "item h2 sc = item h sc"
    by auto
  from nz isc tt show ?thesis
    unfolding upd
    by (simp add: torch_amp_update_scale_def truthy_def tracker_count_def fill_int_def
          imul_def fill_float_def item_def)
qed

text \<open>
  C1. Specified: \<^verbatim>\<open>update()\<close> sums all recorded flags and, when the sum is non-zero,
  multiplies the scale by the backoff factor and resets the growth tracker to 0. With the
  scale on the CPU the source compares the combined flag with the two infinities instead:
  a gradient holding \<open>inf\<close> makes the scan record the flag 1 and the step is skipped, yet
  the update leaves the scale at 1024 (backing off gives 512) and counts the iteration as
  clean, the tracker going from 0 to 1.
\<close>

theorem cpu_update_misses_overflow:
  "\<exists>r opt1 self1 h1 self2 h2 a.
     step no_peers (example_optimizer [[Some (cpu_grad [[PInf]])]]) plain_call
       cpu_scaler cpu_store = Inr (r, opt1, self1, h1)
     \<and> r = PyNone \<and> o_step_calls opt1 = []
     \<and> recorded_flags self1 = [a] \<and> item h1 a = Fin 1
     \<and> update None self1 h1 = Inr (self2, h2)
     \<and> get_scale self1 h1 = Fin 1024 \<and> get_scale self2 h2 = Fin 1024
     \<and> fmul (get_scale self1 h1) (s_backoff_factor self1) = Fin 512
     \<and> tracker_count self1 h1 = 0 \<and> tracker_count self2 h2 = 1"
  by (simp add: eval_defs update_eval_defs tracker_count_def)

text \<open>
  Flags that are not on the CPU are reduced in place: after the synchronisation loop each
  holds its local value plus what the other processes contributed.
\<close>

lemma all_reduce_other:
  "a \<noteq> v \<Longrightarrow> floats (all_reduce peers k v h) a = floats h a"
  by (simp add: all_reduce_def fill_float_def)

lemma all_reduce_device: "device_of (all_reduce peers k v h) a = device_of h a"
  by (simp add: all_reduce_def fill_float_def device_of_def)

lemma all_reduce_item: "item (all_reduce peers k v h) v = fadd (item h v) (peers k)"
  by (simp add: all_reduce_def fill_float_def item_def)

lemma sync_found_inf_other:
  assumes "\<forall>v\<in>set vs. device_of h v \<noteq> CPU" and "a \<notin> set vs"
  shows "floats (sync_found_inf peers k vs h) a = floats h a"
  using assms
proof (induction vs arbitrary: k h)
  case Nil
  then show ?case by simp
next
  case (Cons v vs)
  let ?h1 = "all_reduce peers k v h"
  from Cons.prems have nv: "device_of h v \<noteq> CPU" and av: "a \<noteq> v" and avs: "a \<notin> set vs"
    by simp_all
  from Cons.prems(1) have "\<forall>x\<in>set vs. device_of ?h1 x \<noteq> CPU"
    by (simp add: all_reduce_device)
  from Cons.IH [OF this avs] have "floats (sync_found_inf peers (Suc k) vs ?h1) a = floats ?h1 a" .
  with nv av show ?case
    by (simp add: all_reduce_other)
qed

lemma sync_found_inf_off_cpu:
  assumes "distinct vs" and "\<forall>v\<in>set vs. device_of h v \<noteq> CPU" and "i < length vs"
  shows "item (sync_found_inf peers k vs h) (vs ! i) = fadd (item h (vs ! i)) (peers (k + i))"
  using assms
proof (induction vs arbitrary: k h i)
  case Nil
  then show ?case by simp
next
  case (Cons v vs)
  let ?h1 = "all_reduce peers k v h"
  from Cons.prems have nv: "device_of h v \<noteq> CPU" and vvs: "v \<notin> set vs" and dvs: "distinct vs"
    by simp_all
  from Cons.prems(2) have dev1: "\<forall>x\<in>set vs. device_of ?h1 x \<noteq> CPU"
    by (simp add: all_reduce_device)
  have unfold: "sync_found_inf peers k (v # vs) h = sync_found_inf peers (Suc k) vs ?h1"
    using nv by simp
  show ?case
  proof (cases i)
    case 0
    have "item (sync_found_inf peers (Suc k) vs ?h1) v = item ?h1 v"
      using sync_found_inf_other [OF dev1 vvs] by (simp add: item_def)
    with 0 show ?thesis
      unfolding unfold by (simp add: all_reduce_item)
  next
    case (Suc j)
    with Cons.prems(3) have j: "j < length vs" by simp
    then have "vs ! j \<noteq> v" using vvs by (metis nth_mem)
    then have same: "item ?h1 (vs ! j) = item h (vs ! j)"
      by (simp add: item_def all_reduce_other)
    from Cons.IH [OF dvs dev1 j, of "Suc k"] same Suc show ?thesis
      unfolding unfold by simp
  qed
qed

text \<open>
  C2. Specified: after \<^verbatim>\<open>unscale_\<close> every flag stored for the optimizer holds the sum over
  all processes. For a flag on the CPU the source reduces a CUDA copy and drops the result:
  with no local overflow and another process contributing 1, the stored flag is still 0
  while the sum is 1, and \<^verbatim>\<open>step\<close> goes on to call \<^verbatim>\<open>optimizer.step\<close> on this process.
\<close>

theorem cpu_flag_not_reduced:
  "\<exists>opt1 self1 h1 a.
     unscale overflowing_peer (example_optimizer [[Some (cpu_grad [[Fin 2048]])]])
       cpu_scaler cpu_store = Inr (opt1, self1, h1)
     \<and> fst (found_inf_per_device_of opt1 self1) = [(CPU, a)]
     \<and> item h1 a = Fin 0
     \<and> fadd (Fin 0) (overflowing_peer 0) = Fin 1
     \<and> step overflowing_peer (example_optimizer [[Some (cpu_grad [[Fin 2048]])]]) plain_call
          cpu_scaler cpu_store
        = Inr (Returned 1, opt1\<lparr>o_step_calls := [plain_call]\<rparr>,
               self1\<lparr>s_per_optimizer_states :=
                        [(7, \<lparr>stage = Own STEPPED, found_inf_per_device = [(CPU, a)]\<rparr>)]\<rparr>, h1)"
  by (simp add: eval_defs found_inf_per_device_of_def overflowing_peer_def)

text \<open>
  On the tensor it iterates, the CPU fallback reports a non-finite element exactly when
  there is one, multiplies the slices before the first slice holding one, and leaves that
  slice and the later ones as they are.
\<close>

lemma scan_slices_found: "fst (scan_slices inv_scale rs) = list_ex any_non_finite rs"
  by (induction rs) (simp_all add: split_beta)

lemma scan_slices_result:
  "snd (scan_slices inv_scale rs) =
     map (map (\<lambda>x. fmul x inv_scale)) (takeWhile (\<lambda>r. \<not> any_non_finite r) rs)
       @ dropWhile (\<lambda>r. \<not> any_non_finite r) rs"
  by (induction rs) (simp_all add: split_beta)

text \<open>
  C3. Specified: every gradient is unscaled and scanned, and on the fallback path every
  gradient tensor of the group is scanned. The CPU fallback iterates over the slices of
  the first tensor of the group only: of two CPU gradients the first is unscaled, the
  second, which holds \<open>inf\<close>, is neither scanned nor unscaled, the flag stays 0 and
  \<^verbatim>\<open>optimizer.step\<close> is called.
\<close>

theorem cpu_scan_skips_later_gradients:
  "\<exists>r opt1 self1 h1 a.
     step no_peers
       (example_optimizer [[Some (cpu_grad [[Fin 2048]]), Some (cpu_grad [[PInf], [Fin 2048]])]])
       plain_call cpu_scaler cpu_store = Inr (r, opt1, self1, h1)
     \<and> o_param_groups opt1 = [[Some (cpu_grad [[Fin 2]]), Some (cpu_grad [[PInf], [Fin 2048]])]]
     \<and> recorded_flags self1 = [a] \<and> item h1 a = Fin 0
     \<and> r = Returned 1 \<and> o_step_calls opt1 = [plain_call]"
  by (simp add: eval_defs recorded_flags_def)

text \<open>
  Where \<^verbatim>\<open>state_dict()\<close> returns, its blob has five entries, and loading it into a fresh
  enabled instance gives the same scale, factors, interval and tracker count.
\<close>

lemma state_dict_roundtrip:
  assumes "s_enabled self" and "state_dict self h = Inr d"
    and "s_enabled fresh" and "s_scale fresh = None" and "s_growth_tracker fresh = None"
  shows "length d = 5
       \<and> (\<exists>fresh'. load_state_dict d fresh h0 = Inr (fresh', h0)
             \<and> get_scale fresh' h0 = get_scale self h
             \<and> get_growth_factor fresh' = get_growth_factor self
             \<and> get_backoff_factor fresh' = get_backoff_factor self
             \<and> get_growth_interval fresh' = get_growth_interval self
             \<and> get_growth_tracker fresh' h0 = get_growth_tracker self h)"
proof -
  from assms(1,2) obtain tr where tr: "get_growth_tracker self h = Inr tr"
    and d: "d = [(''scale'', PyFloat (get_scale self h)),
                 (''growth_factor'', PyFloat (s_growth_factor self)),
                 (''backoff_factor'', PyFloat (s_backoff_factor self)),
                 (''growth_interval'', PyInt (s_growth_interval self)),
                 (''_growth_tracker'', PyInt tr)]"
    by (auto simp add: state_dict_def split: sum.splits)
  let ?fresh' = "fresh\<lparr>s_init_scale := get_scale self h,
                        s_growth_factor := s_growth_factor self,
                        s_backoff_factor := s_backoff_factor self,
                        s_growth_interval := s_growth_interval self,
                        s_init_growth_tracker := tr\<rparr>"
  have "load_state_dict d fresh h0 = Inr (?fresh', h0)"
    using assms(3,4,5)
    by (simp add: d load_state_dict_def float_entry_def int_entry_def)
  moreover have "get_scale ?fresh' h0 = get_scale self h"
    using assms(3,4) by (simp add: get_scale_def)
  moreover have "get_growth_tracker ?fresh' h0 = get_growth_tracker self h"
    using assms(3,5) tr by (simp add: get_growth_tracker_def)
  ultimately show ?thesis
    by (simp add: d get_growth_factor_def get_backoff_factor_def get_growth_interval_def)
qed

text \<open>
  C6. Specified: after any number of \<^verbatim>\<open>update()\<close> calls \<^verbatim>\<open>state_dict()\<close> gives the five
  entries, which load into a fresh instance with the same readings. With the scale on the
  CPU, an \<^verbatim>\<open>update()\<close> that grows the scale rebinds the growth tracker to the int 0, and
  \<^verbatim>\<open>state_dict()\<close> then raises when it asks that int for \<^verbatim>\<open>item()\<close>.
\<close>

theorem state_dict_fails_after_cpu_growth:
  "\<exists>r opt1 self1 h1 self2 h2.
     step no_peers (example_optimizer [[Some (cpu_grad [[Fin 2048]])]]) plain_call
       (cpu_scaler\<lparr>s_growth_interval := 1\<rparr>) cpu_store = Inr (r, opt1, self1, h1)
     \<and> update None self1 h1 = Inr (self2, h2)
     \<and> get_scale self2 h2 = Fin 2048
     \<and> s_growth_tracker self2 = Some (TrackerInt 0)
     \<and> state_dict self2 h2 = Inl (AttributeError ''int object has no attribute item'')"
  by (simp add: eval_defs update_eval_defs state_dict_def get_growth_tracker_def)

end
